theory Spec2Isabelle
  imports Complex_Main "HOL-Library.Multiset"
begin

section \<open>Values of the Python program\<close>

text \<open>
  Python text is modelled as \<open>string\<close>, holding the UTF-8 bytes of the text: two
  texts are equal exactly when their byte lists are. Integers are \<open>int\<close>.

  A Python \<open>float\<close> is a finite number, an infinity or NaN. The program parses prices,
  compares them with constants and copies them; it never computes with them, so the
  finite values are kept as reals. The comparisons are those of Python: every comparison
  with NaN is false.
\<close>

datatype pyfloat = Fin real | PosInf | NegInf | NaN

fun float_le :: "pyfloat \<Rightarrow> pyfloat \<Rightarrow> bool" where
  "float_le NaN y = False"
| "float_le x NaN = False"
| "float_le NegInf y = True"
| "float_le x PosInf = True"
| "float_le (Fin a) (Fin b) = (a \<le> b)"
| "float_le x y = False"

fun float_lt :: "pyfloat \<Rightarrow> pyfloat \<Rightarrow> bool" where
  "float_lt NaN y = False"
| "float_lt x NaN = False"
| "float_lt (Fin a) (Fin b) = (a < b)"
| "float_lt NegInf NegInf = False"
| "float_lt NegInf y = True"
| "float_lt PosInf y = False"
| "float_lt (Fin a) PosInf = True"
| "float_lt (Fin a) NegInf = False"

text \<open>\<open>bool(x)\<close> of a float: false for zero only.\<close>

fun float_truthy :: "pyfloat \<Rightarrow> bool" where
  "float_truthy (Fin a) = (a \<noteq> 0)"
| "float_truthy x = True"

fun isnan :: "pyfloat \<Rightarrow> bool" where
  "isnan NaN = True"
| "isnan x = False"

text \<open>
  \<open>generate_password_hash\<close> and \<open>check_password_hash\<close> of werkzeug: the stored
  credential is a hash, standing here as a constructor over the password it was made
  from, and checking compares the passwords.
\<close>

datatype pw_hash = Hashed string

fun check_password_hash :: "pw_hash \<Rightarrow> string \<Rightarrow> bool" where
  "check_password_hash (Hashed p) q = (p = q)"

section \<open>The tables (app.py, lines 30 to 92)\<close>

record user =
  u_id :: int
  username :: string
  email :: string
  password_hash :: pw_hash
  role :: string

record product =
  p_id :: int
  name :: string
  description :: string
  specifications :: string
  condition :: string
  price :: pyfloat
  image_filename :: string
  seller_id :: int

record shipping_address =
  a_id :: int
  user_id :: int
  recipient_name :: string
  phone_number :: string
  address_line1 :: string
  address_line2 :: string
  city :: string
  state :: string
  zip_code :: string
  country :: string

record order =
  o_id :: int
  product_id :: int
  buyer_id :: int
  order_date :: int
  status :: string
  shipping_method :: string
  shipping_address_id :: int
  total_price :: pyfloat

text \<open>
  The state of the application: the four tables, rows in insertion order, and the names
  of the files in the upload folder \<open>static/uploads\<close>.
\<close>

record world =
  users :: "user list"
  products :: "product list"
  shipping_addresses :: "shipping_address list"
  orders :: "order list"
  uploads :: "string set"

text \<open>
  An integer primary key left out of an insert is chosen by the database: one more than
  the largest key of the table, 1 for an empty table (SQLite, the program's default
  database). The proofs use only that the key is new.
\<close>

definition next_id :: "int list \<Rightarrow> int" where
  "next_id ids = fold max ids 0 + 1"

text \<open>\<open>Model.query.get(pk)\<close>: the row with that primary key, if any.\<close>

definition get_user :: "world \<Rightarrow> int \<Rightarrow> user option" where
  "get_user w i = find (\<lambda>u. u_id u = i) (users w)"

definition get_product :: "world \<Rightarrow> int \<Rightarrow> product option" where
  "get_product w i = find (\<lambda>p. p_id p = i) (products w)"

definition get_shipping_address :: "world \<Rightarrow> int \<Rightarrow> shipping_address option" where
  "get_shipping_address w i = find (\<lambda>a. a_id a = i) (shipping_addresses w)"

text \<open>\<open>load_user\<close> (line 27), and \<open>current_user\<close> for a session that may hold a user id.\<close>

definition load_user :: "world \<Rightarrow> int \<Rightarrow> user option" where
  "load_user w i = get_user w i"

definition current_user :: "world \<Rightarrow> int option \<Rightarrow> user option" where
  "current_user w sess = (case sess of None \<Rightarrow> None | Some i \<Rightarrow> load_user w i)"

section \<open>Forms (forms.py) and their validators\<close>

text \<open>
  \<open>DataRequired\<close> on a text field accepts text that is not empty after \<open>strip()\<close>,
  that is, text that does not consist of whitespace only. The whitespace of
  \<open>str.strip\<close> is the characters U+0009 to U+000D, U+001C to U+0020, U+0085, U+00A0,
  U+1680, U+2000 to U+200A, U+2028, U+2029, U+202F, U+205F and U+3000; the first group
  is one byte each in UTF-8, the others two or three bytes.
\<close>

definition is_space :: "char \<Rightarrow> bool" where
  "is_space c = (c \<in> set [CHR '' '', CHR 0x09, CHR 0x0A, CHR 0x0B, CHR 0x0C, CHR 0x0D,
                           CHR 0x1C, CHR 0x1D, CHR 0x1E, CHR 0x1F])"

definition two_byte_space :: "char \<Rightarrow> char \<Rightarrow> bool" where
  "two_byte_space a b = (a = CHR 0xC2 \<and> b \<in> set [CHR 0x85, CHR 0xA0])"

definition three_byte_space :: "char \<Rightarrow> char \<Rightarrow> char \<Rightarrow> bool" where
  "three_byte_space a b c =
    ((a = CHR 0xE1 \<and> b = CHR 0x9A \<and> c = CHR 0x80)
     \<or> (a = CHR 0xE2 \<and> b = CHR 0x80
         \<and> c \<in> set [CHR 0x80, CHR 0x81, CHR 0x82, CHR 0x83, CHR 0x84, CHR 0x85, CHR 0x86,
                      CHR 0x87, CHR 0x88, CHR 0x89, CHR 0x8A, CHR 0xA8, CHR 0xA9, CHR 0xAF])
     \<or> (a = CHR 0xE2 \<and> b = CHR 0x81 \<and> c = CHR 0x9F)
     \<or> (a = CHR 0xE3 \<and> b = CHR 0x80 \<and> c = CHR 0x80))"

text \<open>\<open>blank s\<close>: the text is made of whitespace characters only.\<close>

fun blank :: "string \<Rightarrow> bool" where
  "blank [] = True"
| "blank [a] = is_space a"
| "blank [a, b] = (if is_space a then blank [b] else two_byte_space a b)"
| "blank (a # b # c # cs) =
    (if is_space a then blank (b # c # cs)
     else if two_byte_space a b then blank (c # cs)
     else if three_byte_space a b c then blank cs
     else False)"

definition data_required :: "string \<Rightarrow> bool" where
  "data_required s = (\<not> blank s)"

text \<open>The choices of the two select fields, as UTF-8 bytes.\<close>

definition condition_choices :: "string list" where
  "condition_choices =
    [[CHR 0xE5, CHR 0x85, CHR 0xA8, CHR 0xE6, CHR 0x96, CHR 0xB0],
     [CHR 0xE4, CHR 0xB9, CHR 0x9D, CHR 0xE6, CHR 0x88, CHR 0x90, CHR 0xE6, CHR 0x96, CHR 0xB0],
     [CHR 0xE5, CHR 0x85, CHR 0xAB, CHR 0xE6, CHR 0x88, CHR 0x90, CHR 0xE6, CHR 0x96, CHR 0xB0],
     [CHR 0xE6, CHR 0x9C, CHR 0x89, CHR 0xE4, CHR 0xBD, CHR 0xBF, CHR 0xE7, CHR 0x94, CHR 0xA8,
      CHR 0xE7, CHR 0x97, CHR 0x95, CHR 0xE8, CHR 0xB7, CHR 0xA1],
     [CHR 0xE4, CHR 0xBA, CHR 0x8C, CHR 0xE6, CHR 0x89, CHR 0x8B]]"

definition shipping_method_choices :: "string list" where
  "shipping_method_choices =
    [[CHR 0xE9, CHR 0x83, CHR 0xB5, CHR 0xE5, CHR 0xAF, CHR 0x84],
     [CHR 0xE5, CHR 0xAE, CHR 0x85, CHR 0xE9, CHR 0x85, CHR 0x8D],
     [CHR 0xE8, CHR 0xB6, CHR 0x85, CHR 0xE5, CHR 0x95, CHR 0x86, CHR 0xE5, CHR 0x8F, CHR 0x96,
      CHR 0xE8, CHR 0xB2, CHR 0xA8]]"

text \<open>
  A select field is valid when its value is one of the choices (the field's own check)
  and passes \<open>DataRequired\<close>.
\<close>

definition select_valid :: "string list \<Rightarrow> string \<Rightarrow> bool" where
  "select_valid choices v = (v \<in> set choices \<and> data_required v)"

text \<open>
  The price field (forms.py, line 17): \<open>FloatField\<close> with \<open>DataRequired()\<close> and
  \<open>NumberRange(min=0.01)\<close>. The field's data is \<open>None\<close> when the submitted text is
  missing or is not a float. \<open>DataRequired\<close> wants a true value; \<open>NumberRange\<close>
  wants a value that is not \<open>None\<close>, not NaN and at least the minimum (the check
  for NaN is that of WTForms 2.3 and later). The minimum 0.01 is kept as the real
  number 1/100; the double that Python compares with is a little larger.
\<close>

definition number_range_min :: "pyfloat \<Rightarrow> pyfloat option \<Rightarrow> bool" where
  "number_range_min m d =
    (case d of None \<Rightarrow> False | Some x \<Rightarrow> \<not> isnan x \<and> float_le m x)"

definition price_valid :: "pyfloat option \<Rightarrow> bool" where
  "price_valid d =
    ((case d of None \<Rightarrow> False | Some x \<Rightarrow> float_truthy x)
     \<and> number_range_min (Fin (1 / 100)) d)"

text \<open>
  The image field: its data is the uploaded file, here the file's name as the client
  sent it, or \<open>None\<close>. A file with an empty name counts as no file.
  \<open>FileAllowed(['jpg', 'png', 'jpeg'])\<close> accepts no file, or a file whose lower-cased
  name ends with a dot and one of the three extensions.
\<close>

definition has_file :: "string option \<Rightarrow> bool" where
  "has_file d = (case d of None \<Rightarrow> False | Some fn \<Rightarrow> fn \<noteq> [])"

definition lower_char :: "char \<Rightarrow> char" where
  "lower_char c =
    (let n = (of_char c :: nat) in if 65 \<le> n \<and> n \<le> 90 then char_of (n + 32) else c)"

definition ends_with :: "string \<Rightarrow> string \<Rightarrow> bool" where
  "ends_with s suffix = (length suffix \<le> length s
      \<and> drop (length s - length suffix) s = suffix)"

definition file_allowed :: "string option \<Rightarrow> bool" where
  "file_allowed d =
    (case d of
       None \<Rightarrow> True
     | Some fn \<Rightarrow>
         fn = [] \<or> (\<exists>x \<in> set [''jpg'', ''png'', ''jpeg''].
                       ends_with (map lower_char fn) (''.'' @ x)))"

record product_form =
  pf_csrf :: bool
  pf_name :: string
  pf_description :: string
  pf_specifications :: string
  pf_condition :: string
  pf_price :: "pyfloat option"
  pf_image :: "string option"

record shipping_address_form =
  af_csrf :: bool
  af_recipient_name :: string
  af_phone_number :: string
  af_address_line1 :: string
  af_address_line2 :: string
  af_city :: string
  af_state :: string
  af_zip_code :: string
  af_country :: string

record order_form =
  of_csrf :: bool
  of_shipping_method :: string

text \<open>
  \<open>form.validate()\<close>: the CSRF token of a \<open>FlaskForm\<close> is valid and every field
  passes its validators.
\<close>

definition validate_product_form :: "product_form \<Rightarrow> bool" where
  "validate_product_form f =
    (pf_csrf f \<and> data_required (pf_name f) \<and> data_required (pf_description f)
     \<and> select_valid condition_choices (pf_condition f)
     \<and> price_valid (pf_price f) \<and> file_allowed (pf_image f))"

definition validate_shipping_address_form :: "shipping_address_form \<Rightarrow> bool" where
  "validate_shipping_address_form f =
    (af_csrf f \<and> data_required (af_recipient_name f) \<and> data_required (af_phone_number f)
     \<and> data_required (af_address_line1 f) \<and> data_required (af_city f)
     \<and> data_required (af_state f) \<and> data_required (af_zip_code f)
     \<and> data_required (af_country f))"

definition validate_order_form :: "order_form \<Rightarrow> bool" where
  "validate_order_form f =
    (of_csrf f \<and> select_valid shipping_method_choices (of_shipping_method f))"

datatype http_method = GET | POST

text \<open>\<open>form.validate_on_submit()\<close>: the request is a POST and the form validates.\<close>

definition product_form_validate_on_submit :: "http_method \<Rightarrow> product_form \<Rightarrow> bool" where
  "product_form_validate_on_submit m f = (m = POST \<and> validate_product_form f)"

definition shipping_address_form_validate_on_submit ::
    "http_method \<Rightarrow> shipping_address_form \<Rightarrow> bool" where
  "shipping_address_form_validate_on_submit m f = (m = POST
      \<and> validate_shipping_address_form f)"

definition order_form_validate_on_submit :: "http_method \<Rightarrow> order_form \<Rightarrow> bool" where
  "order_form_validate_on_submit m f = (m = POST \<and> validate_order_form f)"

text \<open>
  The fields of the plain HTML forms of \<open>register\<close> and \<open>login\<close>, read with
  \<open>request.form.get\<close>: \<open>None\<close> for a field the request does not carry.
\<close>

record register_form =
  rf_username :: "string option"
  rf_email :: "string option"
  rf_password :: "string option"
  rf_role :: "string option"

record login_form =
  lf_username :: "string option"
  lf_password :: "string option"

section \<open>Requests and responses\<close>

text \<open>
  What a request takes from outside the program: the value of \<open>uuid.uuid4().hex\<close>
  and the database's clock, \<open>db.func.now()\<close>, in seconds.
\<close>

record env =
  random_hex :: string
  now :: int

datatype endpoint =
  HomeEP | LoginEP | RegisterEP | MyOrdersEP
  | ShippingAddressEP int | ConfirmOrderEP int int | NextPage string

text \<open>The flashed messages, named by what they say.\<close>

datatype flash =
    PleaseLogIn
  | OnlySellersCanList
  | ProductListed
  | UsernameExists
  | EmailRegistered
  | AccountCreated
  | MayNotEditProduct
  | ProductUpdated
  | MayNotDeleteProduct
  | ProductDeleted
  | MayNotViewPage
  | LoginSuccessful
  | LoginUnsuccessful
  | LoggedOut
  | MayNotBuy
  | AddressSaved
  | MayNotUseAddress
  | OrderCreated

datatype page =
    ProductsPage "product list"
  | CreateProductPage product_form
  | EditProductPage product_form product
  | ProductDetailPage product
  | RegisterPage
  | SellerProductsPage "product list"
  | LoginPage
  | ShippingAddressPage shipping_address_form product "shipping_address list"
  | ConfirmOrderPage product shipping_address order_form
  | MyOrdersPage "order list"

datatype reply = Redirect endpoint | Render page | Abort nat

datatype response = Response (reply: reply) (flashed: "flash option")

text \<open>
  \<open>@login_required\<close> without a logged-in user: Flask-Login flashes its message and
  redirects to the login view.
\<close>

definition unauthorized :: response where
  "unauthorized = Response (Redirect LoginEP) (Some PleaseLogIn)"

section \<open>The upload folder\<close>

text \<open>
  The extension that \<open>os.path.splitext\<close> returns: from the last dot of the last path
  component, when a character other than a dot comes before it in that component;
  empty otherwise.
\<close>

definition splitext_ext :: "string \<Rightarrow> string" where
  "splitext_ext fn =
    (let comp = rev (takeWhile (\<lambda>c. c \<noteq> CHR ''/'') (rev fn));
         rest = dropWhile (\<lambda>c. c = CHR ''.'') comp
     in if CHR ''.'' \<in> set rest
        then CHR ''.'' # rev (takeWhile (\<lambda>c. c \<noteq> CHR ''.'') (rev rest))
        else [])"

text \<open>\<open>save_picture\<close> (line 132): the new file's name and the folder with the file in it.\<close>

definition save_picture :: "string set \<Rightarrow> string \<Rightarrow> env \<Rightarrow> string \<times> string set" where
  "save_picture ups filename e =
    (let picture_fn = random_hex e @ splitext_ext filename
     in (picture_fn, insert picture_fn ups))"

text \<open>
  Lines 179 to 182 and 209 to 212: the file of a product's image is removed, when it
  exists, unless the name is \<open>default.jpg\<close>.
\<close>

definition remove_picture :: "string set \<Rightarrow> string \<Rightarrow> string set" where
  "remove_picture ups image_fn =
    (if image_fn \<noteq> ''default.jpg''
     then (if image_fn \<in> ups then ups - {image_fn} else ups)
     else ups)"

section \<open>The views (app.py, lines 94 to 346)\<close>

text \<open>
  In \<open>create_product\<close> and \<open>update_product\<close> the price that is stored is the data of
  the form's price field. A form that has validated has such data; were it \<open>None\<close>, the
  column, which is not nullable, would make the commit raise, after the image file has
  been written.
\<close>

definition home :: "world \<Rightarrow> response \<times> world" where
  "home w = (Response (Render (ProductsPage (products w))) None, w)"

definition create_product ::
    "world \<Rightarrow> int option \<Rightarrow> http_method \<Rightarrow> product_form \<Rightarrow> env \<Rightarrow> response \<times> world" where
  "create_product w sess m form e =
    (case current_user w sess of
       None \<Rightarrow> (unauthorized, w)
     | Some cu \<Rightarrow>
         if role cu \<noteq> ''seller'' then (Response (Redirect HomeEP) (Some OnlySellersCanList), w)
         else if product_form_validate_on_submit m form then
           (let (picture_file, ups) =
                  (case pf_image form of
                     None \<Rightarrow> (''default.jpg'', uploads w)
                   | Some fn \<Rightarrow>
                       if fn \<noteq> [] then save_picture (uploads w) fn e
                       else (''default.jpg'', uploads w))
            in case pf_price form of
                 None \<Rightarrow> (Response (Abort 500) None, w\<lparr>uploads := ups\<rparr>)
               | Some price_data \<Rightarrow>
                   (let product = \<lparr>p_id = next_id (map p_id (products w)),
                                   name = pf_name form,
                                   description = pf_description form,
                                   specifications = pf_specifications form,
                                   condition = pf_condition form,
                                   price = price_data,
                                   image_filename = picture_file,
                                   seller_id = u_id cu\<rparr>
                    in (Response (Redirect HomeEP) (Some ProductListed),
                        w\<lparr>products := products w @ [product], uploads := ups\<rparr>)))
         else (Response (Render (CreateProductPage form)) None, w))"

definition product_detail :: "world \<Rightarrow> int \<Rightarrow> response \<times> world" where
  "product_detail w pid =
    (case get_product w pid of
       None \<Rightarrow> (Response (Abort 404) None, w)
     | Some product \<Rightarrow> (Response (Render (ProductDetailPage product)) None, w))"

text \<open>
  \<open>register\<close> (line 141). A request without a username, an email or a password passes
  both look-ups and raises before anything is stored (hashing \<open>None\<close>, or a null in a
  column that is not nullable): the reply is 500.
\<close>

definition register :: "world \<Rightarrow> int option \<Rightarrow> http_method \<Rightarrow> register_form \<Rightarrow> response \<times> world" where
  "register w sess m form =
    (if current_user w sess \<noteq> None then (Response (Redirect HomeEP) None, w)
     else if m = POST then
       (let role_v = (case rf_role form of None \<Rightarrow> ''buyer'' | Some r \<Rightarrow> r)
        in if find (\<lambda>u. Some (username u) = rf_username form) (users w) \<noteq> None
           then (Response (Redirect RegisterEP) (Some UsernameExists), w)
           else if find (\<lambda>u. Some (email u) = rf_email form) (users w) \<noteq> None
           then (Response (Redirect RegisterEP) (Some EmailRegistered), w)
           else
             (case (rf_username form, rf_email form, rf_password form) of
                (Some un, Some em, Some pw) \<Rightarrow>
                  (let new_user = \<lparr>u_id = next_id (map u_id (users w)),
                                    username = un, email = em,
                                    password_hash = Hashed pw, role = role_v\<rparr>
                   in (Response (Redirect LoginEP) (Some AccountCreated),
                       w\<lparr>users := users w @ [new_user]\<rparr>))
              | _ \<Rightarrow> (Response (Abort 500) None, w)))
     else (Response (Render RegisterPage) None, w))"

text \<open>
  \<open>update_product\<close> (line 170). \<open>product.seller\<close> is the user row that
  \<open>seller_id\<close> names; it is compared with the row of the current user.
\<close>

definition update_product ::
    "world \<Rightarrow> int option \<Rightarrow> int \<Rightarrow> http_method \<Rightarrow> product_form \<Rightarrow> env \<Rightarrow> response \<times> world" where
  "update_product w sess pid m form e =
    (case current_user w sess of
       None \<Rightarrow> (unauthorized, w)
     | Some cu \<Rightarrow>
        (case get_product w pid of
           None \<Rightarrow> (Response (Abort 404) None, w)
         | Some product \<Rightarrow>
             if get_user w (seller_id product) \<noteq> Some cu
             then (Response (Redirect HomeEP) (Some MayNotEditProduct), w)
             else if product_form_validate_on_submit m form then
               (let (picture_file, ups) =
                      (case pf_image form of
                         None \<Rightarrow> (image_filename product, uploads w)
                       | Some fn \<Rightarrow>
                           if fn \<noteq> []
                           then save_picture (remove_picture (uploads w) (image_filename product)) fn e
                           else (image_filename product, uploads w))
                in case pf_price form of
                     None \<Rightarrow> (Response (Abort 500) None, w\<lparr>uploads := ups\<rparr>)
                   | Some price_data \<Rightarrow>
                       (let product' = product\<lparr>image_filename := picture_file,
                                               name := pf_name form,
                                               description := pf_description form,
                                               specifications := pf_specifications form,
                                               condition := pf_condition form,
                                               price := price_data\<rparr>
                        in (Response (Redirect HomeEP) (Some ProductUpdated),
                            w\<lparr>products := map (\<lambda>p. if p_id p = pid then product' else p)
                                              (products w),
                              uploads := ups\<rparr>)))
             else
               (let shown = (if m = GET
                             then form\<lparr>pf_name := name product,
                                       pf_description := description product,
                                       pf_specifications := specifications product,
                                       pf_condition := condition product,
                                       pf_price := Some (price product)\<rparr>
                             else form)
                in (Response (Render (EditProductPage shown product)) None, w))))"

text \<open>
  \<open>delete_product\<close> (line 204). The image file goes first. Then the row is deleted:
  SQLAlchemy first sets \<open>product_id\<close> to null in the orders of \<open>product.orders\<close>;
  the column is not nullable, so with such an order the commit raises, nothing is
  deleted from the tables and the reply is 500.
\<close>

definition delete_product :: "world \<Rightarrow> int option \<Rightarrow> int \<Rightarrow> response \<times> world" where
  "delete_product w sess pid =
    (case current_user w sess of
       None \<Rightarrow> (unauthorized, w)
     | Some cu \<Rightarrow>
        (case get_product w pid of
           None \<Rightarrow> (Response (Abort 404) None, w)
         | Some product \<Rightarrow>
             if get_user w (seller_id product) \<noteq> Some cu
             then (Response (Redirect HomeEP) (Some MayNotDeleteProduct), w)
             else
               (let ups = remove_picture (uploads w) (image_filename product)
                in if \<exists>x \<in> set (orders w). product_id x = p_id product
                   then (Response (Abort 500) None, w\<lparr>uploads := ups\<rparr>)
                   else (Response (Redirect HomeEP) (Some ProductDeleted),
                         w\<lparr>products := filter (\<lambda>p. p_id p \<noteq> p_id product) (products w),
                           uploads := ups\<rparr>))))"

definition seller_products :: "world \<Rightarrow> int option \<Rightarrow> response \<times> world" where
  "seller_products w sess =
    (case current_user w sess of
       None \<Rightarrow> (unauthorized, w)
     | Some cu \<Rightarrow>
         if role cu \<noteq> ''seller'' then (Response (Redirect HomeEP) (Some MayNotViewPage), w)
         else (Response (Render (SellerProductsPage
                 (filter (\<lambda>p. seller_id p = u_id cu) (products w)))) None, w))"

text \<open>
  \<open>login\<close> (line 228) and \<open>logout\<close> (line 246) also return the session's user id
  after the request. Checking a password that the request does not carry raises.
\<close>

definition login ::
    "world \<Rightarrow> int option \<Rightarrow> http_method \<Rightarrow> login_form \<Rightarrow> string option
      \<Rightarrow> (response \<times> int option) \<times> world" where
  "login w sess m form next_arg =
    (if current_user w sess \<noteq> None then ((Response (Redirect HomeEP) None, sess), w)
     else if m = POST then
       (case find (\<lambda>u. Some (username u) = lf_username form) (users w) of
          None \<Rightarrow> ((Response (Render LoginPage) (Some LoginUnsuccessful), sess), w)
        | Some u \<Rightarrow>
            (case lf_password form of
               None \<Rightarrow> ((Response (Abort 500) None, sess), w)
             | Some pw \<Rightarrow>
                 if check_password_hash (password_hash u) pw
                 then ((Response (Redirect (case next_arg of
                                             None \<Rightarrow> HomeEP
                                           | Some n \<Rightarrow> if n \<noteq> [] then NextPage n else HomeEP))
                                 (Some LoginSuccessful), Some (u_id u)), w)
                 else ((Response (Render LoginPage) (Some LoginUnsuccessful), sess), w)))
     else ((Response (Render LoginPage) None, sess), w))"

definition logout :: "world \<Rightarrow> int option \<Rightarrow> (response \<times> int option) \<times> world" where
  "logout w sess =
    (case current_user w sess of
       None \<Rightarrow> ((unauthorized, sess), w)
     | Some cu \<Rightarrow> ((Response (Redirect HomeEP) (Some LoggedOut), None), w))"

text \<open>
  The condition of lines 255, 267, 301 and 330,
  \<open>current_user.role != 'buyer' or current_user.id == product.seller.id\<close>:
  \<open>Some True\<close> when the purchase is refused, \<open>Some False\<close> when it may go on,
  \<open>None\<close> when the role is \<open>buyer\<close> and the product has no seller row, where
  \<open>product.seller.id\<close> raises.
\<close>

definition may_not_buy :: "world \<Rightarrow> user \<Rightarrow> product \<Rightarrow> bool option" where
  "may_not_buy w cu product =
    (if role cu \<noteq> ''buyer'' then Some True
     else (case get_user w (seller_id product) of
             None \<Rightarrow> None
           | Some seller \<Rightarrow> Some (u_id cu = u_id seller)))"

definition create_order :: "world \<Rightarrow> int option \<Rightarrow> int \<Rightarrow> response \<times> world" where
  "create_order w sess pid =
    (case current_user w sess of
       None \<Rightarrow> (unauthorized, w)
     | Some cu \<Rightarrow>
        (case get_product w pid of
           None \<Rightarrow> (Response (Abort 404) None, w)
         | Some product \<Rightarrow>
            (case may_not_buy w cu product of
               None \<Rightarrow> (Response (Abort 500) None, w)
             | Some True \<Rightarrow> (Response (Redirect HomeEP) (Some MayNotBuy), w)
             | Some False \<Rightarrow> (Response (Redirect (ShippingAddressEP (p_id product))) None, w))))"

definition shipping_address_view ::
    "world \<Rightarrow> int option \<Rightarrow> int \<Rightarrow> http_method \<Rightarrow> shipping_address_form \<Rightarrow> response \<times> world" where
  "shipping_address_view w sess pid m form =
    (case current_user w sess of
       None \<Rightarrow> (unauthorized, w)
     | Some cu \<Rightarrow>
        (case get_product w pid of
           None \<Rightarrow> (Response (Abort 404) None, w)
         | Some product \<Rightarrow>
            (case may_not_buy w cu product of
               None \<Rightarrow> (Response (Abort 500) None, w)
             | Some True \<Rightarrow> (Response (Redirect HomeEP) (Some MayNotBuy), w)
             | Some False \<Rightarrow>
                 (let existing_addresses =
                        filter (\<lambda>a. user_id a = u_id cu) (shipping_addresses w)
                  in if shipping_address_form_validate_on_submit m form then
                       (let new_address =
                              \<lparr>a_id = next_id (map a_id (shipping_addresses w)),
                               user_id = u_id cu,
                               recipient_name = af_recipient_name form,
                               phone_number = af_phone_number form,
                               address_line1 = af_address_line1 form,
                               address_line2 = af_address_line2 form,
                               city = af_city form,
                               state = af_state form,
                               zip_code = af_zip_code form,
                               country = af_country form\<rparr>
                        in (Response (Redirect (ConfirmOrderEP (p_id product) (a_id new_address)))
                                     (Some AddressSaved),
                            w\<lparr>shipping_addresses := shipping_addresses w @ [new_address]\<rparr>))
                     else (Response (Render (ShippingAddressPage form product existing_addresses))
                                    None, w)))))"

text \<open>
  \<open>confirm_order\<close> (line 297). The new order takes the database's defaults for the
  columns the view leaves out: \<open>status\<close> is \<open>pending\<close>, \<open>order_date\<close> is the
  clock's time.
\<close>

definition confirm_order ::
    "world \<Rightarrow> int option \<Rightarrow> int \<Rightarrow> int \<Rightarrow> http_method \<Rightarrow> order_form \<Rightarrow> env
      \<Rightarrow> response \<times> world" where
  "confirm_order w sess pid aid m form e =
    (case current_user w sess of
       None \<Rightarrow> (unauthorized, w)
     | Some cu \<Rightarrow>
        (case get_product w pid of
           None \<Rightarrow> (Response (Abort 404) None, w)
         | Some product \<Rightarrow>
            (case get_shipping_address w aid of
               None \<Rightarrow> (Response (Abort 404) None, w)
             | Some shipping_addr \<Rightarrow>
                (case may_not_buy w cu product of
                   None \<Rightarrow> (Response (Abort 500) None, w)
                 | Some True \<Rightarrow> (Response (Redirect HomeEP) (Some MayNotBuy), w)
                 | Some False \<Rightarrow>
                     if user_id shipping_addr \<noteq> u_id cu
                     then (Response (Redirect (ShippingAddressEP (p_id product)))
                                    (Some MayNotUseAddress), w)
                     else if order_form_validate_on_submit m form then
                       (let new_order = \<lparr>o_id = next_id (map o_id (orders w)),
                                          product_id = p_id product,
                                          buyer_id = u_id cu,
                                          order_date = now e,
                                          status = ''pending'',
                                          shipping_method = of_shipping_method form,
                                          shipping_address_id = a_id shipping_addr,
                                          total_price = price product\<rparr>
                        in (Response (Redirect MyOrdersEP) (Some OrderCreated),
                            w\<lparr>orders := orders w @ [new_order]\<rparr>))
                     else (Response (Render (ConfirmOrderPage product shipping_addr form))
                                    None, w)))))"

definition select_shipping_address :: "world \<Rightarrow> int option \<Rightarrow> int \<Rightarrow> int \<Rightarrow> response \<times> world" where
  "select_shipping_address w sess pid aid =
    (case current_user w sess of
       None \<Rightarrow> (unauthorized, w)
     | Some cu \<Rightarrow>
        (case get_product w pid of
           None \<Rightarrow> (Response (Abort 404) None, w)
         | Some product \<Rightarrow>
            (case get_shipping_address w aid of
               None \<Rightarrow> (Response (Abort 404) None, w)
             | Some shipping_addr \<Rightarrow>
                (case may_not_buy w cu product of
                   None \<Rightarrow> (Response (Abort 500) None, w)
                 | Some True \<Rightarrow> (Response (Redirect HomeEP) (Some MayNotBuy), w)
                 | Some False \<Rightarrow>
                     if user_id shipping_addr \<noteq> u_id cu
                     then (Response (Redirect (ShippingAddressEP (p_id product)))
                                    (Some MayNotUseAddress), w)
                     else (Response (Redirect (ConfirmOrderEP (p_id product) (a_id shipping_addr)))
                                    None, w)))))"

text \<open>
  \<open>order_by(Order.order_date.desc())\<close>: the rows sorted by date, latest first. The
  order of rows with equal dates is the database's choice; here an insertion sort that
  puts a row before the rows that are not later than it.
\<close>

fun insert_desc :: "order \<Rightarrow> order list \<Rightarrow> order list" where
  "insert_desc x [] = [x]"
| "insert_desc x (y # ys) =
    (if order_date y \<le> order_date x then x # y # ys else y # insert_desc x ys)"

fun order_by_date_desc :: "order list \<Rightarrow> order list" where
  "order_by_date_desc [] = []"
| "order_by_date_desc (x # xs) = insert_desc x (order_by_date_desc xs)"

definition my_orders :: "world \<Rightarrow> int option \<Rightarrow> response \<times> world" where
  "my_orders w sess =
    (case current_user w sess of
       None \<Rightarrow> (unauthorized, w)
     | Some cu \<Rightarrow>
         if role cu \<noteq> ''buyer'' then (Response (Redirect HomeEP) (Some MayNotViewPage), w)
         else (Response (Render (MyOrdersPage
                 (order_by_date_desc (filter (\<lambda>x. buyer_id x = u_id cu) (orders w))))) None, w))"

section \<open>The application as a transition system\<close>

text \<open>
  A request names a route, with the arguments of its URL, its method where the route
  takes two and the submitted form. A request with a method the route does not take
  never reaches the view and is left out.
\<close>

datatype route =
    ReqHome
  | ReqCreateProduct http_method product_form
  | ReqProductDetail int
  | ReqRegister http_method register_form
  | ReqUpdateProduct int http_method product_form
  | ReqDeleteProduct int
  | ReqSellerProducts
  | ReqLogin http_method login_form "string option"
  | ReqLogout
  | ReqCreateOrder int
  | ReqShippingAddress int http_method shipping_address_form
  | ReqConfirmOrder int int http_method order_form
  | ReqSelectShippingAddress int int
  | ReqMyOrders

text \<open>
  One request: the session's user id, the route and the environment go in; the
  response, the session's user id afterwards and the new state come out.
\<close>

fun handle :: "world \<Rightarrow> int option \<Rightarrow> route \<Rightarrow> env \<Rightarrow> (response \<times> int option) \<times> world" where
  "handle w sess ReqHome e = (let (r, w') = home w in ((r, sess), w'))"
| "handle w sess (ReqCreateProduct m f) e =
     (let (r, w') = create_product w sess m f e in ((r, sess), w'))"
| "handle w sess (ReqProductDetail pid) e =
     (let (r, w') = product_detail w pid in ((r, sess), w'))"
| "handle w sess (ReqRegister m f) e =
     (let (r, w') = register w sess m f in ((r, sess), w'))"
| "handle w sess (ReqUpdateProduct pid m f) e =
     (let (r, w') = update_product w sess pid m f e in ((r, sess), w'))"
| "handle w sess (ReqDeleteProduct pid) e =
     (let (r, w') = delete_product w sess pid in ((r, sess), w'))"
| "handle w sess ReqSellerProducts e =
     (let (r, w') = seller_products w sess in ((r, sess), w'))"
| "handle w sess (ReqLogin m f n) e = login w sess m f n"
| "handle w sess ReqLogout e = logout w sess"
| "handle w sess (ReqCreateOrder pid) e =
     (let (r, w') = create_order w sess pid in ((r, sess), w'))"
| "handle w sess (ReqShippingAddress pid m f) e =
     (let (r, w') = shipping_address_view w sess pid m f in ((r, sess), w'))"
| "handle w sess (ReqConfirmOrder pid aid m f) e =
     (let (r, w') = confirm_order w sess pid aid m f e in ((r, sess), w'))"
| "handle w sess (ReqSelectShippingAddress pid aid) e =
     (let (r, w') = select_shipping_address w sess pid aid in ((r, sess), w'))"
| "handle w sess ReqMyOrders e = (let (r, w') = my_orders w sess in ((r, sess), w'))"

text \<open>
  The states the application can be in: it starts on the empty tables that
  \<open>db.create_all()\<close> makes, with any files in the upload folder, and every request,
  from any session, leads from a state to the next.
\<close>

definition initial :: "string set \<Rightarrow> world" where
  "initial ups = \<lparr>users = [], products = [], shipping_addresses = [], orders = [], uploads = ups\<rparr>"

inductive reachable :: "world \<Rightarrow> bool" where
  start: "reachable (initial ups)"
| step: "reachable w \<Longrightarrow> reachable (snd (handle w sess r e))"

text \<open>The state after a sequence of requests, each with its session and environment.\<close>

fun run :: "world \<Rightarrow> (int option \<times> route \<times> env) list \<Rightarrow> world" where
  "run w [] = w"
| "run w ((sess, r, e) # rest) = run (snd (handle w sess r e)) rest"

section \<open>Invariant of the reachable states\<close>

text \<open>
  Primary keys are unique; every product has a positive price and a seller row whose
  role is \<open>seller\<close>; every order has a buyer row whose role is \<open>buyer\<close> and an
  address row that belongs to the buyer.
\<close>

definition inv :: "world \<Rightarrow> bool" where
  "inv w =
    (distinct (map u_id (users w)) \<and> distinct (map p_id (products w))
     \<and> distinct (map a_id (shipping_addresses w)) \<and> distinct (map o_id (orders w))
     \<and> (\<forall>p \<in> set (products w).
           float_lt (Fin 0) (price p)
           \<and> (\<exists>u \<in> set (users w). u_id u = seller_id p \<and> role u = ''seller''))
     \<and> (\<forall>x \<in> set (orders w).
           (\<exists>u \<in> set (users w). u_id u = buyer_id x \<and> role u = ''buyer'')
           \<and> (\<exists>a \<in> set (shipping_addresses w).
                 a_id a = shipping_address_id x \<and> user_id a = buyer_id x)))"

section \<open>A concrete run: scenario A of the specification\<close>

text \<open>
  A seller and a buyer register, the seller lists a product at 100.0 and the buyer
  stores an address. \<open>shop\<close> is the state after these four requests.
\<close>

definition seller_form :: register_form where
  "seller_form = \<lparr>rf_username = Some ''sam'', rf_email = Some ''sam@example.org'',
                   rf_password = Some ''pw1'', rf_role = Some ''seller''\<rparr>"

definition buyer_form :: register_form where
  "buyer_form = \<lparr>rf_username = Some ''bob'', rf_email = Some ''bob@example.org'',
                  rf_password = Some ''pw2'', rf_role = None\<rparr>"

definition listing_form :: product_form where
  "listing_form = \<lparr>pf_csrf = True, pf_name = ''lamp'', pf_description = ''a lamp'',
                    pf_specifications = [], pf_condition = hd condition_choices,
                    pf_price = Some (Fin 100), pf_image = None\<rparr>"

definition home_address_form :: shipping_address_form where
  "home_address_form = \<lparr>af_csrf = True, af_recipient_name = ''Bob'', af_phone_number = ''0912'',
                         af_address_line1 = ''1 Main St'', af_address_line2 = [],
                         af_city = ''Taipei'', af_state = ''TW'', af_zip_code = ''100'',
                         af_country = ''Taiwan''\<rparr>"

definition delivery_form :: order_form where
  "delivery_form = \<lparr>of_csrf = True, of_shipping_method = shipping_method_choices ! 1\<rparr>"

definition clock :: "int \<Rightarrow> env" where
  "clock t = \<lparr>random_hex = ''0123456789abcdef0123456789abcdef'', now = t\<rparr>"

definition sam :: user where
  "sam = \<lparr>u_id = 1, username = ''sam'', email = ''sam@example.org'',
           password_hash = Hashed ''pw1'', role = ''seller''\<rparr>"

definition bob :: user where
  "bob = \<lparr>u_id = 2, username = ''bob'', email = ''bob@example.org'',
           password_hash = Hashed ''pw2'', role = ''buyer''\<rparr>"

definition lamp :: product where
  "lamp = \<lparr>p_id = 1, name = ''lamp'', description = ''a lamp'', specifications = [],
            condition = hd condition_choices, price = Fin 100,
            image_filename = ''default.jpg'', seller_id = 1\<rparr>"

definition bob_home :: shipping_address where
  "bob_home = \<lparr>a_id = 1, user_id = 2, recipient_name = ''Bob'',
                phone_number = ''0912'', address_line1 = ''1 Main St'', address_line2 = [],
                city = ''Taipei'', state = ''TW'', zip_code = ''100'', country = ''Taiwan''\<rparr>"

definition shop :: world where
  "shop = \<lparr>users = [sam, bob], products = [lamp], shipping_addresses = [bob_home],
            orders = [], uploads = {''default.jpg''}\<rparr>"

text \<open>The order that the buyer's confirmation at time \<open>t\<close> creates with key \<open>k\<close>.\<close>

definition lamp_order :: "int \<Rightarrow> int \<Rightarrow> order" where
  "lamp_order k t = \<lparr>o_id = k, product_id = 1, buyer_id = 2, order_date = t,
                      status = ''pending'', shipping_method = shipping_method_choices ! 1,
                      shipping_address_id = 1, total_price = Fin 100\<rparr>"

text \<open>The state after the buyer has confirmed twice, at the times 5 and 9.\<close>

definition shop_orders :: world where
  "shop_orders = shop\<lparr>orders := [lamp_order 1 5, lamp_order 2 9]\<rparr>"

text \<open>
  The state after the buyer has confirmed once, at time 5, and the seller has then
  lowered the price to 90.
\<close>

definition shop_repriced :: world where
  "shop_repriced = shop\<lparr>products := [lamp\<lparr>price := Fin 90\<rparr>], orders := [lamp_order 1 5]\<rparr>"

text \<open>The seller may edit the listing: a new price, or a new price and a photo.\<close>

definition reprice_form :: product_form where
  "reprice_form = listing_form\<lparr>pf_price := Some (Fin 90)\<rparr>"

definition photo_form :: product_form where
  "photo_form = listing_form\<lparr>pf_price := Some (Fin 120), pf_image := Some ''photo.JPG''\<rparr>"

definition lamp_photo :: product where
  "lamp_photo = lamp\<lparr>price := Fin 120,
                      image_filename := ''0123456789abcdef0123456789abcdef.JPG''\<rparr>"

definition shop_photo :: world where
  "shop_photo = shop\<lparr>products := [lamp_photo],
                      uploads := {''0123456789abcdef0123456789abcdef.JPG'', ''default.jpg''}\<rparr>"

section \<open>Basic facts\<close>

lemma fold_max_ge: "a \<le> fold max ids (a::int)"
  by (induction ids arbitrary: a) (auto intro: order_trans [OF max.cobounded2])

lemma fold_max_upper: "x \<in> set ids \<Longrightarrow> x \<le> fold max ids (a::int)"
proof (induction ids arbitrary: a)
  case Nil
  then show ?case by simp
next
  case (Cons y ys)
  show ?case
  proof (cases "x = y")
    case True
    have "y \<le> max y a" by simp
    also have "\<dots> \<le> fold max ys (max y a)" by (rule fold_max_ge)
    finally show ?thesis using True by simp
  next
    case False
    with Cons.prems have "x \<in> set ys" by simp
    then show ?thesis using Cons.IH by simp
  qed
qed

lemma next_id_fresh: "next_id ids \<notin> set ids"
proof
  assume "next_id ids \<in> set ids"
  then have "next_id ids \<le> fold max ids 0" by (rule fold_max_upper)
  then show False by (simp add: next_id_def)
qed

lemma find_key_Some:
  "find (\<lambda>x. f x = k) xs = Some y \<Longrightarrow> y \<in> set xs \<and> f y = k"
  by (auto simp: find_Some_iff)

lemma current_user_Some:
  "current_user w sess = Some cu \<Longrightarrow> cu \<in> set (users w)
      \<and> sess = Some (u_id cu)"
  by (auto simp: current_user_def load_user_def get_user_def find_Some_iff split: option.splits)

lemma get_user_Some: "get_user w i = Some u \<Longrightarrow> u \<in> set (users w)
    \<and> u_id u = i"
  unfolding get_user_def by (rule find_key_Some)

lemma get_product_Some: "get_product w i = Some p \<Longrightarrow> p \<in> set (products w)
    \<and> p_id p = i"
  unfolding get_product_def by (rule find_key_Some)

lemma get_shipping_address_Some:
  "get_shipping_address w i = Some a \<Longrightarrow> a \<in> set (shipping_addresses w)
      \<and> a_id a = i"
  unfolding get_shipping_address_def by (rule find_key_Some)

lemma price_valid_positive: "price_valid d \<Longrightarrow> \<exists>x. d = Some x
    \<and> float_lt (Fin 0) x"
  by (cases d; cases "the d") (auto simp: price_valid_def number_range_min_def)

lemma price_nonpositive_invalid: "float_le x (Fin 0) \<Longrightarrow> \<not> price_valid (Some x)"
  by (cases x) (auto simp: price_valid_def number_range_min_def)



subsection \<open>What each view changes\<close>

lemma register_effect:
  assumes "w' = snd (register w sess m form)"
  shows "products w' = products w \<and> shipping_addresses w' = shipping_addresses w
         \<and> orders w' = orders w \<and> uploads w' = uploads w
         \<and> (users w' = users w
            \<or> (\<exists>u. users w' = users w @ [u]
                \<and> u_id u = next_id (map u_id (users w))))"
  unfolding assms by (auto simp: register_def Let_def split: option.splits)

lemma create_product_effect:
  assumes "w' = snd (create_product w sess m form e)"
  shows "users w' = users w \<and> shipping_addresses w' = shipping_addresses w
         \<and> orders w' = orders w
         \<and> (products w' = products w
            \<or> (\<exists>cu p. current_user w sess = Some cu \<and> role cu = ''seller''
                  \<and> products w' = products w @ [p]
                  \<and> p_id p = next_id (map p_id (products w)) \<and> seller_id p = u_id cu
                  \<and> float_lt (Fin 0) (price p)))"
  unfolding assms
  by (auto simp: create_product_def Let_def product_form_validate_on_submit_def
        validate_product_form_def split: option.splits prod.splits dest!: price_valid_positive)

lemma update_product_effect:
  assumes "w' = snd (update_product w sess pid m form e)"
  shows "users w' = users w \<and> shipping_addresses w' = shipping_addresses w
         \<and> orders w' = orders w
         \<and> (products w' = products w
            \<or> (\<exists>product product'. get_product w pid = Some product
                 
                      \<and> products w' = map (\<lambda>p. if p_id p = pid then product' else p) (products w)
                  \<and> p_id product' = pid \<and> seller_id product' = seller_id product
                  \<and> float_lt (Fin 0) (price product')))"
  unfolding assms
  by (auto simp: update_product_def Let_def product_form_validate_on_submit_def
        validate_product_form_def split: option.splits prod.splits
        dest!: price_valid_positive get_product_Some)

lemma delete_product_effect:
  assumes "w' = snd (delete_product w sess pid)"
  shows "users w' = users w \<and> shipping_addresses w' = shipping_addresses w
         \<and> orders w' = orders w
         \<and> (products w' = products w
            \<or> products w' = filter (\<lambda>p. p_id p \<noteq> pid) (products w))"
  unfolding assms
  by (auto simp: delete_product_def Let_def split: option.splits dest!: get_product_Some)

lemma shipping_address_view_effect:
  assumes "w' = snd (shipping_address_view w sess pid m form)"
  shows "users w' = users w \<and> products w' = products w
         \<and> orders w' = orders w \<and> uploads w' = uploads w
         \<and> (shipping_addresses w' = shipping_addresses w
            \<or> (\<exists>a. shipping_addresses w' = shipping_addresses w @ [a]
                  \<and> a_id a = next_id (map a_id (shipping_addresses w))))"
  unfolding assms
  by (auto simp: shipping_address_view_def Let_def split: option.splits bool.splits)

lemma confirm_order_effect:
  assumes "w' = snd (confirm_order w sess pid aid m form e)"
  shows "users w' = users w \<and> products w' = products w
         \<and> shipping_addresses w' = shipping_addresses w \<and> uploads w' = uploads w
         \<and> (orders w' = orders w
            \<or> (\<exists>cu addr x. current_user w sess = Some cu \<and> role cu = ''buyer''
                  \<and> get_shipping_address w aid = Some addr \<and> user_id addr = u_id cu
                  \<and> orders w' = orders w @ [x]
                  \<and> o_id x = next_id (map o_id (orders w)) \<and> buyer_id x = u_id cu
                  \<and> shipping_address_id x = aid))"
  unfolding assms
  by (auto simp: confirm_order_def Let_def may_not_buy_def
        split: option.splits bool.splits if_splits dest!: get_shipping_address_Some)

subsection \<open>The concrete run\<close>

lemma shop_built:
  "shop = snd (handle (snd (handle (snd (handle (snd (handle (initial {''default.jpg''})
            None (ReqRegister POST seller_form) (clock 1)))
            None (ReqRegister POST buyer_form) (clock 2)))
            (Some 1) (ReqCreateProduct POST listing_form) (clock 3)))
            (Some 2) (ReqShippingAddress 1 POST home_address_form) (clock 4))"
  by (simp add: shop_def sam_def bob_def lamp_def bob_home_def initial_def seller_form_def buyer_form_def listing_form_def
        home_address_form_def clock_def register_def create_product_def
        shipping_address_view_def current_user_def load_user_def get_user_def get_product_def
        next_id_def may_not_buy_def product_form_validate_on_submit_def
        validate_product_form_def shipping_address_form_validate_on_submit_def
        validate_shipping_address_form_def data_required_def is_space_def two_byte_space_def three_byte_space_def select_valid_def
        condition_choices_def price_valid_def number_range_min_def file_allowed_def Let_def)

lemma shop_reachable: "reachable shop"
  unfolding shop_built by (intro reachable.step reachable.start)

lemma confirm_shop:
  "confirm_order shop (Some 2) 1 1 POST delivery_form (clock t) =
    (Response (Redirect MyOrdersEP) (Some OrderCreated), shop\<lparr>orders := [lamp_order 1 t]\<rparr>)"
  by (simp add: shop_def sam_def bob_def lamp_def bob_home_def lamp_order_def delivery_form_def
        clock_def confirm_order_def current_user_def
        load_user_def get_user_def get_product_def get_shipping_address_def next_id_def
        may_not_buy_def order_form_validate_on_submit_def validate_order_form_def
        data_required_def is_space_def two_byte_space_def three_byte_space_def select_valid_def shipping_method_choices_def Let_def)

section \<open>The order that confirm_order creates\<close>

lemma confirm_order_success:
  assumes "confirm_order w sess pid aid m form e = (Response (Redirect MyOrdersEP) fl, w')"
  shows "\<exists>cu product addr.
           current_user w sess = Some cu \<and> get_product w pid = Some product
           \<and> get_shipping_address w aid = Some addr
           \<and> may_not_buy w cu product = Some False \<and> user_id addr = u_id cu
           \<and> order_form_validate_on_submit m form
           \<and> fl = Some OrderCreated
           \<and> w' = w\<lparr>orders := orders w @
                  [\<lparr>o_id = next_id (map o_id (orders w)), product_id = pid,
                    buyer_id = u_id cu, order_date = now e, status = ''pending'',
                    shipping_method = of_shipping_method form,
                    shipping_address_id = aid, total_price = price product\<rparr>]\<rparr>"
  using assms
  by (auto simp: confirm_order_def unauthorized_def Let_def
        dest!: get_product_Some get_shipping_address_Some
        split: option.splits bool.splits if_splits)

text \<open>
  Claim C3. Whenever \<open>confirm_order\<close> succeeds (it redirects to the buyer's order
  list), the session holds a user id, the product exists, and the orders table is the old
  one followed by one new order: its \<open>total_price\<close> is the price the product has in
  the state the request runs in, its \<open>status\<close> is \<open>pending\<close>, its shipping method is
  the submitted one, and \<open>product_id\<close>, \<open>buyer_id\<close> and \<open>shipping_address_id\<close> are
  the product of the URL, the session's user and the address of the URL.
\<close>

theorem confirm_order_creates:
  assumes "confirm_order w sess pid aid m form e = (Response (Redirect MyOrdersEP) fl, w')"
  shows "\<exists>uid product.
           sess = Some uid \<and> get_product w pid = Some product
           \<and> orders w' = orders w @
                  [\<lparr>o_id = next_id (map o_id (orders w)), product_id = pid,
                    buyer_id = uid, order_date = now e, status = ''pending'',
                    shipping_method = of_shipping_method form,
                    shipping_address_id = aid, total_price = price product\<rparr>]"
proof -
  from confirm_order_success [OF assms] obtain cu product where
    h: "current_user w sess = Some cu" "get_product w pid = Some product"
       "w' = w\<lparr>orders := orders w @
                  [\<lparr>o_id = next_id (map o_id (orders w)), product_id = pid,
                    buyer_id = u_id cu, order_date = now e, status = ''pending'',
                    shipping_method = of_shipping_method form,
                    shipping_address_id = aid, total_price = price product\<rparr>]\<rparr>"
    by blast
  from current_user_Some [OF h(1)] have "sess = Some (u_id cu)" by simp
  with h show ?thesis by simp
qed


theorem confirm_order_creates_witness:
  "confirm_order shop (Some 2) 1 1 POST delivery_form (clock 5) =
     (Response (Redirect MyOrdersEP) (Some OrderCreated), shop\<lparr>orders := [lamp_order 1 5]\<rparr>)
   \<and> (\<exists>uid product.
         Some (2::int) = Some uid \<and> get_product shop 1 = Some product
         \<and> orders (shop\<lparr>orders := [lamp_order 1 5]\<rparr>) =
            orders shop @
              [\<lparr>o_id = next_id (map o_id (orders shop)), product_id = 1,
                buyer_id = uid, order_date = now (clock 5), status = ''pending'',
                shipping_method = of_shipping_method delivery_form,
                shipping_address_id = 1, total_price = price product\<rparr>])"
  using confirm_shop [of 5] confirm_order_creates [OF confirm_shop [of 5]] by blast

section \<open>Registration\<close>

lemma find_None_key: "(find P xs \<noteq> None) = (\<exists>x \<in> set xs. P x)"
  by (auto simp: find_None_iff)

text \<open>
  Claim C9. A registration whose username is that of a stored user changes nothing:
  the state after the request is the state before, so no user row is added and the
  existing rows are as they were. When the request is a POST from a visitor who is not
  logged in, the reply is the redirect back to the registration page with the message
  that the username exists.
\<close>

theorem register_existing_username:
  assumes "u \<in> set (users w)" and "rf_username form = Some (username u)"
  shows "snd (register w sess m form) = w
         \<and> (current_user w sess = None \<and> m = POST \<longrightarrow>
              fst (register w sess m form) = Response (Redirect RegisterEP) (Some UsernameExists))"
proof -
  from assms have "find (\<lambda>v. Some (username v) = rf_username form) (users w) \<noteq> None"
    unfolding find_None_key by auto
  then show ?thesis by (simp add: register_def Let_def)
qed

theorem register_existing_username_witness:
  "snd (register shop None POST (buyer_form\<lparr>rf_username := Some ''sam''\<rparr>)) = shop
   \<and> fst (register shop None POST (buyer_form\<lparr>rf_username := Some ''sam''\<rparr>)) =
       Response (Redirect RegisterEP) (Some UsernameExists)"
  using register_existing_username
          [of sam shop "buyer_form\<lparr>rf_username := Some ''sam''\<rparr>" None POST]
  by (simp add: shop_def sam_def current_user_def)

text \<open>
  Claim C4 fails on the code. \<open>register\<close> stores the \<open>role\<close> field of the request as
  it comes (line 148 reads it, line 160 stores it) and nothing compares it with
  \<open>buyer\<close> and \<open>seller\<close>, the two values that the comment on the column (line 35)
  names. On the empty database, the request below stores a user whose role is
  \<open>admin\<close>.
\<close>

theorem register_stores_any_role:
  "users (snd (register (initial {}) None POST
       \<lparr>rf_username = Some ''eve'', rf_email = Some ''eve@example.org'',
        rf_password = Some ''pw'', rf_role = Some ''admin''\<rparr>)) =
     [\<lparr>u_id = 1, username = ''eve'', email = ''eve@example.org'',
       password_hash = Hashed ''pw'', role = ''admin''\<rparr>]
   \<and> ''admin'' \<notin> {''buyer'', ''seller''}"
  by (simp add: register_def initial_def current_user_def next_id_def)

section \<open>Deleting a product and its image\<close>

lemma remove_picture_mem:
  "(f \<in> remove_picture ups fn) = (f \<in> ups
      \<and> (f = fn \<longrightarrow> fn = ''default.jpg''))"
  by (auto simp: remove_picture_def)

lemma delete_product_uploads:
  assumes "current_user w sess = Some cu" and "get_product w pid = Some product"
    and "get_user w (seller_id product) = Some cu"
  shows "uploads (snd (delete_product w sess pid)) =
           remove_picture (uploads w) (image_filename product)"
  using assms by (simp add: delete_product_def Let_def)

text \<open>
  Claim C8. When the seller who owns a product asks for its deletion, the file of the
  product's image is absent from the upload folder afterwards exactly when its name is not
  \<open>default.jpg\<close> or it was absent before; every other file is in the folder after the
  request exactly when it was before; and so is the placeholder \<open>default.jpg\<close>.
\<close>

theorem delete_product_image:
  assumes "current_user w sess = Some cu" and "get_product w pid = Some product"
    and "get_user w (seller_id product) = Some cu"
    and "w' = snd (delete_product w sess pid)"
  shows "(image_filename product \<notin> uploads w') =
           (image_filename product \<noteq> ''default.jpg'' \<or> image_filename product \<notin> uploads w)
        
             \<and> (\<forall>f. f \<noteq> image_filename product \<longrightarrow> (f \<in> uploads w') = (f \<in> uploads w))
         \<and> (''default.jpg'' \<in> uploads w') = (''default.jpg'' \<in> uploads w)"
  unfolding assms(4) delete_product_uploads [OF assms(1-3)] remove_picture_mem by auto


lemma allowed_photo: "file_allowed (Some ''photo.JPG'')"
  by code_simp

lemma ext_photo: "splitext_ext ''photo.JPG'' = ''.JPG''"
  by (simp add: splitext_ext_def)

lemma listing_valid: "validate_product_form listing_form"
  by (simp add: listing_form_def validate_product_form_def data_required_def is_space_def two_byte_space_def three_byte_space_def
        select_valid_def condition_choices_def price_valid_def number_range_min_def
        file_allowed_def)

lemma photo_valid: "validate_product_form photo_form"
  using listing_valid allowed_photo
  by (simp add: photo_form_def listing_form_def validate_product_form_def price_valid_def
        number_range_min_def)

lemma update_shop:
  "update_product shop (Some 1) 1 POST photo_form (clock t) =
     (Response (Redirect HomeEP) (Some ProductUpdated), shop_photo)"
proof -
  have cu: "current_user shop (Some 1) = Some sam"
    by (simp add: current_user_def load_user_def get_user_def shop_def sam_def)
  have p: "get_product shop 1 = Some lamp"
    by (simp add: get_product_def shop_def lamp_def)
  have s: "get_user shop (seller_id lamp) = Some sam"
    by (simp add: get_user_def shop_def lamp_def sam_def)
  have f: "pf_image photo_form = Some ''photo.JPG''" "pf_price photo_form = Some (Fin 120)"
    "pf_name photo_form = ''lamp''" "pf_description photo_form = ''a lamp''"
    "pf_specifications photo_form = []" "pf_condition photo_form = hd condition_choices"
    by (simp_all add: photo_form_def listing_form_def)
  show ?thesis
    by (simp add: update_product_def cu p s f photo_valid product_form_validate_on_submit_def
          save_picture_def remove_picture_def ext_photo clock_def Let_def)
       (simp add: shop_photo_def lamp_photo_def shop_def lamp_def)
qed

lemma shop_photo_reachable: "reachable shop_photo"
proof -
  have e: "snd (handle shop (Some 1) (ReqUpdateProduct 1 POST photo_form) (clock 5)) = shop_photo"
    by (simp add: update_shop)
  from reachable.step [OF shop_reachable, of "Some 1" "ReqUpdateProduct 1 POST photo_form" "clock 5"]
  show ?thesis unfolding e .
qed

lemma shop_photo_seller: "current_user shop_photo (Some 1) = Some sam"
  by (simp add: current_user_def load_user_def get_user_def shop_photo_def shop_def sam_def)

lemma shop_photo_product: "get_product shop_photo 1 = Some lamp_photo"
  by (simp add: get_product_def shop_photo_def shop_def lamp_photo_def lamp_def)

lemma shop_photo_owner: "get_user shop_photo (seller_id lamp_photo) = Some sam"
  by (simp add: get_user_def shop_photo_def shop_def lamp_photo_def lamp_def sam_def)

theorem delete_product_image_witness:
  "uploads shop_photo = {image_filename lamp_photo, ''default.jpg''}
   \<and> image_filename lamp_photo \<noteq> ''default.jpg''
   \<and> image_filename lamp_photo \<notin> uploads (snd (delete_product shop_photo (Some 1) 1))
   \<and> ''default.jpg'' \<in> uploads (snd (delete_product shop_photo (Some 1) 1))"
proof -
  have img: "image_filename lamp_photo \<noteq> ''default.jpg''"
    by (simp add: lamp_photo_def)
  have ups: "uploads shop_photo = {image_filename lamp_photo, ''default.jpg''}"
    by (simp add: shop_photo_def lamp_photo_def)
  from delete_product_image [OF shop_photo_seller shop_photo_product shop_photo_owner refl]
  have "image_filename lamp_photo \<notin> uploads (snd (delete_product shop_photo (Some 1) 1))"
    and "''default.jpg'' \<in> uploads (snd (delete_product shop_photo (Some 1) 1))"
    using img ups by blast+
  with img ups show ?thesis by blast
qed

section \<open>Updating a product\<close>

lemma find_map_update_same:
  assumes "find (\<lambda>p. f p = k) xs = Some y" and "f y' = k"
  shows "find (\<lambda>p. f p = k) (map (\<lambda>p. if f p = k then y' else p) xs) = Some y'"
  using assms by (induction xs) (auto split: if_splits)

lemma find_map_update_other:
  assumes "q \<noteq> k" and "f y' = k"
  shows "find (\<lambda>p. f p = q) (map (\<lambda>p. if f p = k then y' else p) xs) = find (\<lambda>p. f p = q) xs"
  using assms by (induction xs) auto

lemma map_key_update:
  assumes "f y' = k"
  shows "map f (map (\<lambda>p. if f p = k then y' else p) xs) = map f xs"
  using assms by (induction xs) auto

lemma update_product_success:
  assumes "update_product w sess pid m form e =
        (Response (Redirect HomeEP) (Some ProductUpdated), w')"
  shows "\<exists>cu product x img ups.
           current_user w sess = Some cu \<and> get_product w pid = Some product
           \<and> get_user w (seller_id product) = Some cu
           \<and> product_form_validate_on_submit m form
           \<and> pf_price form = Some x
          
               \<and> (\<not> has_file (pf_image form) \<longrightarrow> img = image_filename product
               \<and> ups = uploads w)
           \<and> w' = w\<lparr>products := map (\<lambda>p. if p_id p = pid
                                          then product\<lparr>image_filename := img, name := pf_name form,
                                                 description := pf_description form,
                                                 specifications := pf_specifications form,
                                                 condition := pf_condition form, price := x\<rparr>
                                          else p) (products w),
                      uploads := ups\<rparr>"
  using assms
  by (auto simp: update_product_def unauthorized_def Let_def has_file_def
        product_form_validate_on_submit_def validate_product_form_def
        dest!: price_valid_positive
        split: option.splits if_splits prod.splits)

lemma update_product_result:
  assumes "update_product w sess pid m form e =
        (Response (Redirect HomeEP) (Some ProductUpdated), w')"
  shows "\<exists>product x img.
           get_product w pid = Some product \<and> pf_price form = Some x
           \<and> get_product w' pid =
               Some (product\<lparr>image_filename := img, name := pf_name form,
                             description := pf_description form,
                             specifications := pf_specifications form,
                             condition := pf_condition form, price := x\<rparr>)
          
               \<and> (\<not> has_file (pf_image form) \<longrightarrow> img = image_filename product
               \<and> uploads w' = uploads w)
           \<and> (\<forall>p'. get_product w' pid = Some p' \<longrightarrow>
                  seller_id p' = seller_id product \<and> p_id p' = p_id product)
           \<and> (\<forall>q. q \<noteq> pid \<longrightarrow> get_product w' q = get_product w q)
           \<and> map p_id (products w') = map p_id (products w)
           \<and> users w' = users w \<and> shipping_addresses w' = shipping_addresses w
           \<and> orders w' = orders w"
proof -
  from update_product_success [OF assms] obtain product x img ups where
    p: "get_product w pid = Some product" and x: "pf_price form = Some x"
    and i: "\<not> has_file (pf_image form) \<longrightarrow> img = image_filename product
        \<and> ups = uploads w"
    and w': "w' = w\<lparr>products := map (\<lambda>p. if p_id p = pid
                                          then product\<lparr>image_filename := img, name := pf_name form,
                                                 description := pf_description form,
                                                 specifications := pf_specifications form,
                                                 condition := pf_condition form, price := x\<rparr>
                                          else p) (products w),
                      uploads := ups\<rparr>"
    by blast
  let ?p' = "product\<lparr>image_filename := img, name := pf_name form,
                     description := pf_description form,
                     specifications := pf_specifications form,
                     condition := pf_condition form, price := x\<rparr>"
  from get_product_Some [OF p] have k: "p_id ?p' = pid" by simp
  from p have f: "find (\<lambda>p. p_id p = pid) (products w) = Some product"
    by (simp add: get_product_def)
  have g: "get_product w' pid = Some ?p'"
    unfolding get_product_def w' using find_map_update_same [where f = p_id, OF f k] by simp
  have o: "\<forall>q. q \<noteq> pid \<longrightarrow> get_product w' q = get_product w q"
    unfolding get_product_def w' using find_map_update_other [where f = p_id and k = pid and y' = "?p'"] k by simp
  have ids: "map p_id (products w') = map p_id (products w)"
    unfolding w' using map_key_update [where f = p_id, OF k] by simp
  have rest: "users w' = users w" "shipping_addresses w' = shipping_addresses w"
    "orders w' = orders w" "uploads w' = ups"
    by (simp_all add: w')
  show ?thesis
    using p x g i o ids rest by (intro exI [of _ product] exI [of _ x] exI [of _ img]) simp
qed

text \<open>
  Claim C10. After a successful \<open>update_product\<close> (the redirect with the message
  that the product was updated), the row that \<open>Product.query.get\<close> returns for the
  product is the old row with \<open>name\<close>, \<open>description\<close>, \<open>specifications\<close>,
  \<open>condition\<close> and \<open>price\<close> set from the form and with some \<open>image_filename\<close>;
  its \<open>seller_id\<close> and its key are those of the old row; when the form carries no
  image file the \<open>image_filename\<close> is the old one and the upload folder is as it was.
  Every other product, and the tables of users, addresses and orders, are unchanged.
\<close>

theorem update_product_frame:
  assumes "update_product w sess pid m form e =
        (Response (Redirect HomeEP) (Some ProductUpdated), w')"
  shows "\<exists>product x img.
           get_product w pid = Some product \<and> pf_price form = Some x
           \<and> get_product w' pid =
               Some (product\<lparr>image_filename := img, name := pf_name form,
                             description := pf_description form,
                             specifications := pf_specifications form,
                             condition := pf_condition form, price := x\<rparr>)
          
               \<and> (\<not> has_file (pf_image form) \<longrightarrow> img = image_filename product
               \<and> uploads w' = uploads w)
           \<and> (\<forall>p'. get_product w' pid = Some p' \<longrightarrow>
                  seller_id p' = seller_id product \<and> p_id p' = p_id product)
           \<and> (\<forall>q. q \<noteq> pid \<longrightarrow> get_product w' q = get_product w q)
           \<and> map p_id (products w') = map p_id (products w)
           \<and> users w' = users w \<and> shipping_addresses w' = shipping_addresses w
           \<and> orders w' = orders w"
  by (rule update_product_result [OF assms])


lemma shop_seller: "current_user shop (Some 1) = Some sam"
  by (simp add: current_user_def load_user_def get_user_def shop_def sam_def)

lemma shop_product: "get_product shop 1 = Some lamp"
  by (simp add: get_product_def shop_def lamp_def)

lemma shop_owner: "get_user shop (seller_id lamp) = Some sam"
  by (simp add: get_user_def shop_def lamp_def sam_def)

lemma reprice_valid: "validate_product_form reprice_form"
  using listing_valid
  by (simp add: reprice_form_def listing_form_def validate_product_form_def price_valid_def
        number_range_min_def)

lemma reprice_shop:
  "update_product shop (Some 1) 1 POST reprice_form (clock t) =
     (Response (Redirect HomeEP) (Some ProductUpdated), shop\<lparr>products := [lamp\<lparr>price := Fin 90\<rparr>]\<rparr>)"
proof -
  have f: "pf_image reprice_form = None" "pf_price reprice_form = Some (Fin 90)"
    "pf_name reprice_form = ''lamp''" "pf_description reprice_form = ''a lamp''"
    "pf_specifications reprice_form = []" "pf_condition reprice_form = hd condition_choices"
    by (simp_all add: reprice_form_def listing_form_def)
  show ?thesis
    by (simp add: update_product_def shop_seller shop_product shop_owner f reprice_valid
          product_form_validate_on_submit_def Let_def)
       (simp add: shop_def lamp_def)
qed

theorem update_product_frame_witness:
  "\<exists>p'. get_product (shop\<lparr>products := [lamp\<lparr>price := Fin 90\<rparr>]\<rparr>) 1 = Some p'
        \<and> seller_id p' = seller_id lamp \<and> p_id p' = p_id lamp
        \<and> image_filename p' = image_filename lamp \<and> price p' = Fin 90"
proof -
  from update_product_frame [OF reprice_shop [of 5]] obtain product x img where
    a: "get_product shop 1 = Some product" "pf_price reprice_form = Some x"
    and b: "get_product (shop\<lparr>products := [lamp\<lparr>price := Fin 90\<rparr>]\<rparr>) 1 =
             Some (product\<lparr>image_filename := img, name := pf_name reprice_form,
                             description := pf_description reprice_form,
                             specifications := pf_specifications reprice_form,
                             condition := pf_condition reprice_form, price := x\<rparr>)"
    and c: "\<not> has_file (pf_image reprice_form) \<longrightarrow> img = image_filename product"
    by blast
  from a have "product = lamp" "x = Fin 90"
    by (simp_all add: shop_product reprice_form_def)
  moreover have "\<not> has_file (pf_image reprice_form)"
    by (simp add: has_file_def reprice_form_def listing_form_def)
  ultimately show ?thesis using b c by simp
qed



section \<open>The orders of a buyer\<close>

lemma mset_insert_desc: "mset (insert_desc x xs) = add_mset x (mset xs)"
  by (induction xs) auto

lemma mset_order_by_date_desc: "mset (order_by_date_desc xs) = mset xs"
  by (induction xs) (auto simp: mset_insert_desc)

lemma set_insert_desc: "set (insert_desc x xs) = insert x (set xs)"
  by (induction xs) auto

lemma sorted_insert_desc:
  "sorted_wrt (\<lambda>a b. order_date b \<le> order_date a) xs \<Longrightarrow>
   sorted_wrt (\<lambda>a b. order_date b \<le> order_date a) (insert_desc x xs)"
  by (induction xs) (auto simp: set_insert_desc)

lemma sorted_order_by_date_desc:
  "sorted_wrt (\<lambda>a b. order_date b \<le> order_date a) (order_by_date_desc xs)"
  by (induction xs) (auto simp: sorted_insert_desc)

text \<open>
  Claim C6. For a logged-in user whose role is \<open>buyer\<close>, \<open>my_orders\<close> renders a
  list that holds exactly the orders whose \<open>buyer_id\<close> is the user's id, each as often
  as the table does, and changes nothing. The list is sorted by \<open>order_date\<close>, latest
  first: of two orders in the list with different dates, the one that comes first has the
  later date.
\<close>

theorem my_orders_sorted:
  assumes "current_user w sess = Some cu" and "role cu = ''buyer''"
  shows "\<exists>os. my_orders w sess = (Response (Render (MyOrdersPage os)) None, w)
           \<and> mset os = mset (filter (\<lambda>x. buyer_id x = u_id cu) (orders w))
           \<and> sess = Some (u_id cu)
           \<and> sorted_wrt (\<lambda>a b. order_date b \<le> order_date a) os
          
               \<and> (\<forall>i j. i < j
               \<and> j < length os
               \<and> order_date (os ! i) \<noteq> order_date (os ! j)
                  \<longrightarrow> order_date (os ! j) < order_date (os ! i))"
proof -
  let ?os = "order_by_date_desc (filter (\<lambda>x. buyer_id x = u_id cu) (orders w))"
  have r: "my_orders w sess = (Response (Render (MyOrdersPage ?os)) None, w)"
    using assms by (simp add: my_orders_def)
  have m: "mset ?os = mset (filter (\<lambda>x. buyer_id x = u_id cu) (orders w))"
    by (rule mset_order_by_date_desc)
  have s: "sorted_wrt (\<lambda>a b. order_date b \<le> order_date a) ?os"
    by (rule sorted_order_by_date_desc)
  have p: "\<forall>i j. i < j
      \<and> j < length ?os
      \<and> order_date (?os ! i) \<noteq> order_date (?os ! j)
             \<longrightarrow> order_date (?os ! j) < order_date (?os ! i)"
  proof (intro allI impI)
    fix i j
    assume h: "i < j
        \<and> j < length ?os
        \<and> order_date (?os ! i) \<noteq> order_date (?os ! j)"
    then have "order_date (?os ! j) \<le> order_date (?os ! i)"
      using s by (simp add: sorted_wrt_iff_nth_less)
    with h show "order_date (?os ! j) < order_date (?os ! i)" by simp
  qed
  from current_user_Some [OF assms(1)] have "sess = Some (u_id cu)" by simp
  with r m s p show ?thesis by blast
qed


lemma shop_orders_buyer: "current_user shop_orders (Some 2) = Some bob"
  by (simp add: current_user_def load_user_def get_user_def shop_orders_def shop_def
        sam_def bob_def)

lemma my_orders_shop:
  "my_orders shop_orders (Some 2) =
     (Response (Render (MyOrdersPage [lamp_order 2 9, lamp_order 1 5])) None, shop_orders)"
proof -
  have "filter (\<lambda>x. buyer_id x = u_id bob) (orders shop_orders) = [lamp_order 1 5, lamp_order 2 9]"
    by (simp add: shop_orders_def lamp_order_def bob_def)
  moreover have "order_by_date_desc [lamp_order 1 5, lamp_order 2 9] = [lamp_order 2 9, lamp_order 1 5]"
    by (simp add: lamp_order_def)
  ultimately show ?thesis
    by (simp add: my_orders_def shop_orders_buyer) (simp add: bob_def)
qed

theorem my_orders_sorted_witness:
  "my_orders shop_orders (Some 2) =
     (Response (Render (MyOrdersPage [lamp_order 2 9, lamp_order 1 5])) None, shop_orders)
  
       \<and> sorted_wrt (\<lambda>a b. order_date b \<le> order_date a) [lamp_order 2 9, lamp_order 1 5]
   \<and> mset [lamp_order 2 9, lamp_order 1 5] =
       mset (filter (\<lambda>x. buyer_id x = 2) (orders shop_orders))"
proof -
  have role: "role bob = ''buyer''" and uid: "u_id bob = 2"
    by (simp_all add: bob_def)
  from my_orders_sorted [OF shop_orders_buyer role] show ?thesis
    unfolding my_orders_shop uid by auto
qed






section \<open>Look-ups read their own tables\<close>

lemma current_user_cong: "users w' = users w \<Longrightarrow> current_user w' sess = current_user w sess"
  by (simp add: current_user_def load_user_def get_user_def split: option.splits)

lemma get_product_cong: "products w' = products w \<Longrightarrow> get_product w' i = get_product w i"
  by (simp add: get_product_def)

lemma get_shipping_address_cong:
  "shipping_addresses w' = shipping_addresses w \<Longrightarrow>
   get_shipping_address w' i = get_shipping_address w i"
  by (simp add: get_shipping_address_def)

lemma may_not_buy_cong: "users w' = users w \<Longrightarrow> may_not_buy w' cu p = may_not_buy w cu p"
  by (simp add: may_not_buy_def get_user_def)

lemma confirm_again:
  "confirm_order (shop\<lparr>orders := [lamp_order 1 5]\<rparr>) (Some 2) 1 1 POST delivery_form (clock 9) =
    (Response (Redirect MyOrdersEP) (Some OrderCreated), shop_orders)"
  by (simp add: shop_orders_def shop_def sam_def bob_def lamp_def bob_home_def lamp_order_def
        delivery_form_def clock_def confirm_order_def current_user_def
        load_user_def get_user_def get_product_def get_shipping_address_def next_id_def
        may_not_buy_def order_form_validate_on_submit_def validate_order_form_def
        data_required_def is_space_def two_byte_space_def three_byte_space_def select_valid_def shipping_method_choices_def Let_def)

section \<open>The invariant holds in every reachable state\<close>

lemma inv_initial: "inv (initial ups)"
  by (simp add: inv_def initial_def)

lemma inv_register:
  assumes "inv w" shows "inv (snd (register w sess m form))"
proof -
  let ?w' = "snd (register w sess m form)"
  from register_effect [OF refl, of w sess m form]
  have t: "products ?w' = products w" "shipping_addresses ?w' = shipping_addresses w"
    "orders ?w' = orders w"
    and u: "users ?w' = users w
            \<or> (\<exists>u. users ?w' = users w @ [u]
                \<and> u_id u = next_id (map u_id (users w)))"
    by blast+
  from u show ?thesis
  proof
    assume "users ?w' = users w"
    with t assms show ?thesis by (simp add: inv_def)
  next
    assume "\<exists>u. users ?w' = users w @ [u] \<and> u_id u = next_id (map u_id (users w))"
    then obtain u where u': "users ?w' = users w @ [u]" "u_id u = next_id (map u_id (users w))"
      by blast
    have "u_id u \<notin> set (map u_id (users w))" unfolding u'(2) by (rule next_id_fresh)
    with assms show ?thesis unfolding inv_def t u'(1) by auto
  qed
qed

lemma inv_create_product:
  assumes "inv w" shows "inv (snd (create_product w sess m form e))"
proof -
  let ?w' = "snd (create_product w sess m form e)"
  from create_product_effect [OF refl, of w sess m form e]
  have t: "users ?w' = users w" "shipping_addresses ?w' = shipping_addresses w"
    "orders ?w' = orders w"
    and p: "products ?w' = products w
            \<or> (\<exists>cu p. current_user w sess = Some cu \<and> role cu = ''seller''
                  \<and> products ?w' = products w @ [p]
                  \<and> p_id p = next_id (map p_id (products w)) \<and> seller_id p = u_id cu
                  \<and> float_lt (Fin 0) (price p))"
    by blast+
  from p show ?thesis
  proof
    assume "products ?w' = products w"
    with t assms show ?thesis by (simp add: inv_def)
  next
    assume "\<exists>cu p. current_user w sess = Some cu \<and> role cu = ''seller''
                  \<and> products ?w' = products w @ [p]
                  \<and> p_id p = next_id (map p_id (products w)) \<and> seller_id p = u_id cu
                  \<and> float_lt (Fin 0) (price p)"
    then obtain cu p where h: "current_user w sess = Some cu" "role cu = ''seller''"
      "products ?w' = products w @ [p]" "p_id p = next_id (map p_id (products w))"
      "seller_id p = u_id cu" "float_lt (Fin 0) (price p)"
      by blast
    have "p_id p \<notin> set (map p_id (products w))" unfolding h(4) by (rule next_id_fresh)
    moreover from current_user_Some [OF h(1)] have "cu \<in> set (users w)" by simp
    ultimately show ?thesis using assms h(2,5,6) unfolding inv_def t h(3) by auto
  qed
qed

lemma inv_update_product:
  assumes "inv w" shows "inv (snd (update_product w sess pid m form e))"
proof -
  let ?w' = "snd (update_product w sess pid m form e)"
  from update_product_effect [OF refl, of w sess pid m form e]
  have t: "users ?w' = users w" "shipping_addresses ?w' = shipping_addresses w"
    "orders ?w' = orders w"
    and p: "products ?w' = products w
            \<or> (\<exists>product product'. get_product w pid = Some product
                 
                      \<and> products ?w' = map (\<lambda>p. if p_id p = pid then product' else p) (products w)
                  \<and> p_id product' = pid \<and> seller_id product' = seller_id product
                  \<and> float_lt (Fin 0) (price product'))"
    by blast+
  from p show ?thesis
  proof
    assume "products ?w' = products w"
    with t assms show ?thesis by (simp add: inv_def)
  next
    assume "\<exists>product product'. get_product w pid = Some product
                 
                      \<and> products ?w' = map (\<lambda>p. if p_id p = pid then product' else p) (products w)
                  \<and> p_id product' = pid \<and> seller_id product' = seller_id product
                  \<and> float_lt (Fin 0) (price product')"
    then obtain product product' where h: "get_product w pid = Some product"
      "products ?w' = map (\<lambda>p. if p_id p = pid then product' else p) (products w)"
      "p_id product' = pid" "seller_id product' = seller_id product"
      "float_lt (Fin 0) (price product')"
      by blast
    from get_product_Some [OF h(1)] have in_w: "product \<in> set (products w)" by simp
    have ids: "map p_id (products ?w') = map p_id (products w)"
      unfolding h(2) by (rule map_key_update [where f = p_id, OF h(3)])
    have rows: "\<forall>q \<in> set (products ?w'). q \<in> set (products w) \<or> q = product'"
      unfolding h(2) by auto
    from assms in_w have "\<exists>u \<in> set (users w). u_id u = seller_id product'
        \<and> role u = ''seller''"
      unfolding inv_def h(4) by blast
    with assms h(5) rows have "\<forall>q \<in> set (products ?w').
           float_lt (Fin 0) (price q)
           \<and> (\<exists>u \<in> set (users w). u_id u = seller_id q \<and> role u = ''seller'')"
      unfolding inv_def by blast
    with assms ids show ?thesis unfolding inv_def t by simp
  qed
qed

lemma inv_delete_product:
  assumes "inv w" shows "inv (snd (delete_product w sess pid))"
proof -
  let ?w' = "snd (delete_product w sess pid)"
  from delete_product_effect [OF refl, of w sess pid]
  have t: "users ?w' = users w" "shipping_addresses ?w' = shipping_addresses w"
    "orders ?w' = orders w"
    and p: "products ?w' = products w
            \<or> products ?w' = filter (\<lambda>p. p_id p \<noteq> pid) (products w)"
    by blast+
  from p show ?thesis
  proof
    assume "products ?w' = products w"
    with t assms show ?thesis by (simp add: inv_def)
  next
    assume f: "products ?w' = filter (\<lambda>p. p_id p \<noteq> pid) (products w)"
    from assms show ?thesis unfolding inv_def t f by (auto simp: distinct_map_filter)
  qed
qed

lemma inv_shipping_address_view:
  assumes "inv w" shows "inv (snd (shipping_address_view w sess pid m form))"
proof -
  let ?w' = "snd (shipping_address_view w sess pid m form)"
  from shipping_address_view_effect [OF refl, of w sess pid m form]
  have t: "users ?w' = users w" "products ?w' = products w" "orders ?w' = orders w"
    and a: "shipping_addresses ?w' = shipping_addresses w
            \<or> (\<exists>a. shipping_addresses ?w' = shipping_addresses w @ [a]
                  \<and> a_id a = next_id (map a_id (shipping_addresses w)))"
    by blast+
  from a show ?thesis
  proof
    assume "shipping_addresses ?w' = shipping_addresses w"
    with t assms show ?thesis by (simp add: inv_def)
  next
    assume "\<exists>a. shipping_addresses ?w' = shipping_addresses w @ [a]
                  \<and> a_id a = next_id (map a_id (shipping_addresses w))"
    then obtain a where a': "shipping_addresses ?w' = shipping_addresses w @ [a]"
      "a_id a = next_id (map a_id (shipping_addresses w))"
      by blast
    have "a_id a \<notin> set (map a_id (shipping_addresses w))" unfolding a'(2) by (rule next_id_fresh)
    with assms show ?thesis unfolding inv_def t a'(1) by auto
  qed
qed

lemma inv_confirm_order:
  assumes "inv w" shows "inv (snd (confirm_order w sess pid aid m form e))"
proof -
  let ?w' = "snd (confirm_order w sess pid aid m form e)"
  from confirm_order_effect [OF refl, of w sess pid aid m form e]
  have t: "users ?w' = users w" "products ?w' = products w"
    "shipping_addresses ?w' = shipping_addresses w"
    and o: "orders ?w' = orders w
            \<or> (\<exists>cu addr x. current_user w sess = Some cu \<and> role cu = ''buyer''
                  \<and> get_shipping_address w aid = Some addr \<and> user_id addr = u_id cu
                  \<and> orders ?w' = orders w @ [x]
                  \<and> o_id x = next_id (map o_id (orders w)) \<and> buyer_id x = u_id cu
                  \<and> shipping_address_id x = aid)"
    by blast+
  from o show ?thesis
  proof
    assume "orders ?w' = orders w"
    with t assms show ?thesis by (simp add: inv_def)
  next
    assume "\<exists>cu addr x. current_user w sess = Some cu \<and> role cu = ''buyer''
                  \<and> get_shipping_address w aid = Some addr \<and> user_id addr = u_id cu
                  \<and> orders ?w' = orders w @ [x]
                  \<and> o_id x = next_id (map o_id (orders w)) \<and> buyer_id x = u_id cu
                  \<and> shipping_address_id x = aid"
    then obtain cu addr x where h: "current_user w sess = Some cu" "role cu = ''buyer''"
      "get_shipping_address w aid = Some addr" "user_id addr = u_id cu"
      "orders ?w' = orders w @ [x]" "o_id x = next_id (map o_id (orders w))"
      "buyer_id x = u_id cu" "shipping_address_id x = aid"
      by blast
    have "o_id x \<notin> set (map o_id (orders w))" unfolding h(6) by (rule next_id_fresh)
    moreover from current_user_Some [OF h(1)] have "cu \<in> set (users w)" by simp
    moreover from get_shipping_address_Some [OF h(3)]
    have "addr \<in> set (shipping_addresses w)" "a_id addr = aid" by simp_all
    ultimately show ?thesis using assms h(2,4,7,8) unfolding inv_def t h(5) by auto
  qed
qed


lemma read_only_views:
  "snd (home w) = w" "snd (product_detail w pid) = w" "snd (seller_products w sess) = w"
  "snd (login w sess m lf n) = w" "snd (logout w sess) = w"
  "snd (create_order w sess pid) = w" "snd (select_shipping_address w sess pid aid) = w"
  "snd (my_orders w sess) = w"
  by (simp_all add: home_def product_detail_def seller_products_def login_def logout_def
        create_order_def select_shipping_address_def my_orders_def
        split: option.splits bool.splits)

lemma inv_handle:
  assumes "inv w" shows "inv (snd (handle w sess r e))"
  using assms
  by (cases r)
     (simp_all add: read_only_views inv_register inv_create_product inv_update_product
        inv_delete_product inv_shipping_address_view inv_confirm_order split_beta)

lemma reachable_inv: "reachable w \<Longrightarrow> inv w"
  by (induction rule: reachable.induct) (simp_all add: inv_initial inv_handle)

section \<open>No order on one's own product\<close>

lemma current_user_self:
  assumes "current_user w sess = Some cu"
  shows "get_user w (u_id cu) = Some cu"
proof -
  from current_user_Some [OF assms] have "sess = Some (u_id cu)" by simp
  with assms show ?thesis by (simp add: current_user_def load_user_def)
qed

lemma confirm_order_own_product:
  assumes "current_user w sess = Some cu" and "get_product w pid = Some product"
    and "u_id cu = seller_id product"
  shows "snd (confirm_order w sess pid aid m form e) = w
         \<and> (get_shipping_address w aid \<noteq> None \<longrightarrow>
              fst (confirm_order w sess pid aid m form e) =
                Response (Redirect HomeEP) (Some MayNotBuy))"
proof -
  from current_user_self [OF assms(1)] assms(3)
  have "get_user w (seller_id product) = Some cu" by simp
  then have "may_not_buy w cu product = Some True"
    by (simp add: may_not_buy_def)
  with assms(1,2) show ?thesis
    by (simp add: confirm_order_def split: option.splits)
qed

text \<open>
  Claim C1. In every reachable state, the buyer of an order is not the seller of the
  order's product: for every order and every product row with the order's
  \<open>product_id\<close>, \<open>buyer_id\<close> differs from \<open>seller_id\<close>. And in any state, a
  \<open>confirm_order\<close> request by a logged-in user whose id is the \<open>seller_id\<close> of the
  product leaves the state as it is, so it creates no order; when the address of the URL
  exists, the reply is the redirect to the home page with the message that the user may
  not buy the product.
\<close>

theorem no_self_purchase:
  "(reachable w \<longrightarrow>
      (\<forall>x \<in> set (orders w). \<forall>p \<in> set (products w).
          p_id p = product_id x \<longrightarrow> buyer_id x \<noteq> seller_id p))
   \<and> (\<forall>cu product.
         current_user w sess = Some cu \<and> get_product w pid = Some product
         \<and> u_id cu = seller_id product \<longrightarrow>
           snd (confirm_order w sess pid aid m form e) = w
           \<and> (get_shipping_address w aid \<noteq> None \<longrightarrow>
                fst (confirm_order w sess pid aid m form e) =
                  Response (Redirect HomeEP) (Some MayNotBuy)))"
proof (intro conjI impI allI ballI)
  fix x p
  assume r: "reachable w" and x: "x \<in> set (orders w)" and p: "p \<in> set (products w)"
  from reachable_inv [OF r] have i: "inv w" .
  from i x obtain b where b: "b \<in> set (users w)" "u_id b = buyer_id x" "role b = ''buyer''"
    unfolding inv_def by blast
  from i p obtain s where s: "s \<in> set (users w)" "u_id s = seller_id p" "role s = ''seller''"
    unfolding inv_def by blast
  from i have d: "distinct (map u_id (users w))" unfolding inv_def by simp
  show "buyer_id x \<noteq> seller_id p"
  proof
    assume "buyer_id x = seller_id p"
    with b s have "u_id b = u_id s" by simp
    with d b(1) s(1) have "b = s" by (simp add: distinct_map inj_on_def)
    with b(3) s(3) show False by simp
  qed
next
  fix cu product
  assume "current_user w sess = Some cu \<and> get_product w pid = Some product
          \<and> u_id cu = seller_id product"
  then show "snd (confirm_order w sess pid aid m form e) = w"
    using confirm_order_own_product by blast
next
  fix cu product
  assume "current_user w sess = Some cu \<and> get_product w pid = Some product
          \<and> u_id cu = seller_id product"
    and "get_shipping_address w aid \<noteq> None"
  then show "fst (confirm_order w sess pid aid m form e) =
                  Response (Redirect HomeEP) (Some MayNotBuy)"
    using confirm_order_own_product by blast
qed


lemma shop_orders_reachable: "reachable shop_orders"
proof -
  have a: "snd (handle shop (Some 2) (ReqConfirmOrder 1 1 POST delivery_form) (clock 5)) =
             shop\<lparr>orders := [lamp_order 1 5]\<rparr>"
    by (simp add: confirm_shop)
  have b: "snd (handle (shop\<lparr>orders := [lamp_order 1 5]\<rparr>) (Some 2)
                  (ReqConfirmOrder 1 1 POST delivery_form) (clock 9)) = shop_orders"
    by (simp add: confirm_again)
  from reachable.step [OF shop_reachable, of "Some 2" "ReqConfirmOrder 1 1 POST delivery_form" "clock 5"]
  have "reachable (shop\<lparr>orders := [lamp_order 1 5]\<rparr>)" unfolding a .
  from reachable.step [OF this, of "Some 2" "ReqConfirmOrder 1 1 POST delivery_form" "clock 9"]
  show ?thesis unfolding b .
qed

theorem no_self_purchase_witness:
  "reachable shop_orders
   \<and> lamp_order 1 5 \<in> set (orders shop_orders) \<and> lamp \<in> set (products shop_orders)
   \<and> p_id lamp = product_id (lamp_order 1 5)
   \<and> buyer_id (lamp_order 1 5) \<noteq> seller_id lamp
  
       \<and> current_user (shop\<lparr>products := [lamp\<lparr>seller_id := 2\<rparr>]\<rparr>) (Some 2) = Some bob
   \<and> u_id bob = seller_id (lamp\<lparr>seller_id := 2\<rparr>)
  
       \<and> confirm_order (shop\<lparr>products := [lamp\<lparr>seller_id := 2\<rparr>]\<rparr>) (Some 2) 1 1 POST
         delivery_form (clock 5) =
       (Response (Redirect HomeEP) (Some MayNotBuy), shop\<lparr>products := [lamp\<lparr>seller_id := 2\<rparr>]\<rparr>)"
proof -
  let ?w = "shop\<lparr>products := [lamp\<lparr>seller_id := 2\<rparr>]\<rparr>"
  have x: "lamp_order 1 5 \<in> set (orders shop_orders)" "lamp \<in> set (products shop_orders)"
    "p_id lamp = product_id (lamp_order 1 5)"
    by (simp_all add: shop_orders_def shop_def lamp_def lamp_order_def)
  have cu: "current_user ?w (Some 2) = Some bob"
    by (simp add: current_user_def load_user_def get_user_def shop_def sam_def bob_def)
  have p: "get_product ?w 1 = Some (lamp\<lparr>seller_id := 2\<rparr>)"
    by (simp add: get_product_def lamp_def)
  have a: "get_shipping_address ?w 1 \<noteq> None"
    by (simp add: get_shipping_address_def shop_def bob_home_def)
  have k: "u_id bob = seller_id (lamp\<lparr>seller_id := 2\<rparr>)"
    by (simp add: bob_def)
  note t = no_self_purchase [of shop_orders "Some 2" 1 1 POST delivery_form "clock 5"]
  note u = no_self_purchase [of ?w "Some 2" 1 1 POST delivery_form "clock 5"]
  from t shop_orders_reachable x have "buyer_id (lamp_order 1 5) \<noteq> seller_id lamp" by blast
  moreover from u cu p k a
  have "snd (confirm_order ?w (Some 2) 1 1 POST delivery_form (clock 5)) = ?w"
    and "fst (confirm_order ?w (Some 2) 1 1 POST delivery_form (clock 5)) =
           Response (Redirect HomeEP) (Some MayNotBuy)"
    by blast+
  then have "confirm_order ?w (Some 2) 1 1 POST delivery_form (clock 5) =
       (Response (Redirect HomeEP) (Some MayNotBuy), ?w)"
    by (simp add: prod_eq_iff)
  ultimately show ?thesis using shop_orders_reachable x cu k by blast
qed

section \<open>The address of an order is the buyer's\<close>

lemma find_distinct_key:
  assumes "distinct (map f xs)" and "a \<in> set xs"
  shows "find (\<lambda>y. f y = f a) xs = Some a"
  using assms by (induction xs) (auto simp: image_iff)

lemma confirm_order_foreign_address:
  assumes "current_user w sess = Some cu" and "get_shipping_address w aid = Some addr"
    and "user_id addr \<noteq> u_id cu"
  shows "snd (confirm_order w sess pid aid m form e) = w
        
             \<and> (\<forall>product. get_product w pid = Some product
             \<and> may_not_buy w cu product = Some False
               \<longrightarrow> fst (confirm_order w sess pid aid m form e) =
                     Response (Redirect (ShippingAddressEP pid)) (Some MayNotUseAddress))"
  using assms
  by (auto simp: confirm_order_def dest!: get_product_Some split: option.splits bool.splits)

text \<open>
  Claim C2. In every reachable state, the address row of every order exists and its
  \<open>user_id\<close> is the order's \<open>buyer_id\<close>. And in any state, a \<open>confirm_order\<close>
  request that names an address whose \<open>user_id\<close> is not the id of the logged-in user
  leaves the state as it is, so it creates no order; when the user passes the check on
  buyers (the role is \<open>buyer\<close> and the user is not the product's seller), the reply
  is the redirect to the address step of the product with the message that the address
  may not be used.
\<close>

theorem order_address_belongs_to_buyer:
  "(reachable w \<longrightarrow>
      (\<forall>x \<in> set (orders w).
          \<exists>a. get_shipping_address w (shipping_address_id x) = Some a
               \<and> user_id a = buyer_id x))
   \<and> (\<forall>cu addr.
         current_user w sess = Some cu \<and> get_shipping_address w aid = Some addr
         \<and> user_id addr \<noteq> u_id cu \<longrightarrow>
           snd (confirm_order w sess pid aid m form e) = w
           \<and> (\<forall>product. get_product w pid = Some product
                   \<and> may_not_buy w cu product = Some False \<longrightarrow>
                 fst (confirm_order w sess pid aid m form e) =
                   Response (Redirect (ShippingAddressEP pid)) (Some MayNotUseAddress)))"
proof (intro conjI impI allI ballI)
  fix x
  assume r: "reachable w" and x: "x \<in> set (orders w)"
  from reachable_inv [OF r] have i: "inv w" .
  from i x obtain a where a: "a \<in> set (shipping_addresses w)"
    "a_id a = shipping_address_id x" "user_id a = buyer_id x"
    unfolding inv_def by blast
  from i have "distinct (map a_id (shipping_addresses w))" unfolding inv_def by simp
  from find_distinct_key [OF this a(1)] a(2)
  have "get_shipping_address w (shipping_address_id x) = Some a"
    by (simp add: get_shipping_address_def)
  with a(3) show "\<exists>a. get_shipping_address w (shipping_address_id x) = Some a
                      \<and> user_id a = buyer_id x"
    by blast
next
  fix cu addr
  assume "current_user w sess = Some cu \<and> get_shipping_address w aid = Some addr
          \<and> user_id addr \<noteq> u_id cu"
  then show "snd (confirm_order w sess pid aid m form e) = w"
    using confirm_order_foreign_address by blast
next
  fix cu addr product
  assume "current_user w sess = Some cu \<and> get_shipping_address w aid = Some addr
          \<and> user_id addr \<noteq> u_id cu"
    and "get_product w pid = Some product \<and> may_not_buy w cu product = Some False"
  then show "fst (confirm_order w sess pid aid m form e) =
               Response (Redirect (ShippingAddressEP pid)) (Some MayNotUseAddress)"
    using confirm_order_foreign_address by blast
qed


theorem order_address_belongs_to_buyer_witness:
  "reachable shop_orders \<and> lamp_order 1 5 \<in> set (orders shop_orders)
  
       \<and> (\<exists>a. get_shipping_address shop_orders (shipping_address_id (lamp_order 1 5)) = Some a
            \<and> user_id a = buyer_id (lamp_order 1 5))
  
       \<and> current_user (shop\<lparr>shipping_addresses := [bob_home\<lparr>user_id := 1\<rparr>]\<rparr>) (Some 2) = Some bob
   \<and> user_id (bob_home\<lparr>user_id := 1\<rparr>) \<noteq> u_id bob
  
       \<and> confirm_order (shop\<lparr>shipping_addresses := [bob_home\<lparr>user_id := 1\<rparr>]\<rparr>) (Some 2) 1 1 POST
         delivery_form (clock 5) =
       (Response (Redirect (ShippingAddressEP 1)) (Some MayNotUseAddress),
        shop\<lparr>shipping_addresses := [bob_home\<lparr>user_id := 1\<rparr>]\<rparr>)"
proof -
  let ?w = "shop\<lparr>shipping_addresses := [bob_home\<lparr>user_id := 1\<rparr>]\<rparr>"
  have x: "lamp_order 1 5 \<in> set (orders shop_orders)"
    by (simp add: shop_orders_def)
  have cu: "current_user ?w (Some 2) = Some bob"
    by (simp add: current_user_def load_user_def get_user_def shop_def sam_def bob_def)
  have a: "get_shipping_address ?w 1 = Some (bob_home\<lparr>user_id := 1\<rparr>)"
    by (simp add: get_shipping_address_def bob_home_def)
  have k: "user_id (bob_home\<lparr>user_id := 1\<rparr>) \<noteq> u_id bob"
    by (simp add: bob_def)
  have p: "get_product ?w 1 = Some lamp"
    by (simp add: get_product_def shop_def lamp_def)
  have g: "may_not_buy ?w bob lamp = Some False"
    by (simp add: may_not_buy_def get_user_def shop_def sam_def bob_def lamp_def)
  note t = order_address_belongs_to_buyer [of shop_orders "Some 2" 1 1 POST delivery_form "clock 5"]
  note u = order_address_belongs_to_buyer [of ?w "Some 2" 1 1 POST delivery_form "clock 5"]
  from t shop_orders_reachable x
  have "\<exists>a. get_shipping_address shop_orders (shipping_address_id (lamp_order 1 5)) = Some a
            \<and> user_id a = buyer_id (lamp_order 1 5)"
    by blast
  moreover from u cu a k p g
  have "snd (confirm_order ?w (Some 2) 1 1 POST delivery_form (clock 5)) = ?w"
    and "fst (confirm_order ?w (Some 2) 1 1 POST delivery_form (clock 5)) =
           Response (Redirect (ShippingAddressEP 1)) (Some MayNotUseAddress)"
    by blast+
  then have "confirm_order ?w (Some 2) 1 1 POST delivery_form (clock 5) =
       (Response (Redirect (ShippingAddressEP 1)) (Some MayNotUseAddress), ?w)"
    by (simp add: prod_eq_iff)
  ultimately show ?thesis using shop_orders_reachable x cu k by blast
qed

section \<open>Prices are positive\<close>

lemma create_product_success:
  assumes "create_product w sess m form e = (Response (Redirect HomeEP) (Some ProductListed), w')"
  shows "\<exists>p. products w' = products w @ [p] \<and> pf_price form = Some (price p)
             \<and> float_lt (Fin 0) (price p)"
  using assms
  by (auto simp: create_product_def unauthorized_def Let_def
        product_form_validate_on_submit_def validate_product_form_def
        dest!: price_valid_positive
        split: option.splits if_splits prod.splits)

lemma update_product_success_price:
  assumes "update_product w sess pid m form e =
        (Response (Redirect HomeEP) (Some ProductUpdated), w')"
  shows "\<exists>p'. get_product w' pid = Some p' \<and> pf_price form = Some (price p')
              \<and> float_lt (Fin 0) (price p')"
proof -
  from update_product_success [OF assms] obtain x where
    x: "pf_price form = Some x" "product_form_validate_on_submit m form"
    by blast
  then have "price_valid (Some x)"
    by (simp add: product_form_validate_on_submit_def validate_product_form_def)
  from price_valid_positive [OF this] have pos: "float_lt (Fin 0) x" by simp
  from update_product_result [OF assms] x(1) obtain product img where
    "get_product w' pid =
       Some (product\<lparr>image_filename := img, name := pf_name form,
                     description := pf_description form,
                     specifications := pf_specifications form,
                     condition := pf_condition form, price := x\<rparr>)"
    by auto
  with x(1) pos show ?thesis by simp
qed

lemma nonpositive_price_rejected:
  assumes "pf_price form = Some x" and "float_le x (Fin 0)"
  shows "create_product w sess m form e \<noteq> (Response (Redirect HomeEP) (Some ProductListed), w')"
    and "snd (create_product w sess m form e) = w"
    and "update_product w sess pid m form e \<noteq> (Response (Redirect HomeEP) (Some ProductUpdated), w')"
    and "snd (update_product w sess pid m form e) = w"
proof -
  from price_nonpositive_invalid [OF assms(2)] assms(1)
  have "\<not> product_form_validate_on_submit m form"
    by (simp add: product_form_validate_on_submit_def validate_product_form_def)
  then show "create_product w sess m form e \<noteq> (Response (Redirect HomeEP) (Some ProductListed), w')"
    and "snd (create_product w sess m form e) = w"
    and "update_product w sess pid m form e \<noteq> (Response (Redirect HomeEP) (Some ProductUpdated), w')"
    and "snd (update_product w sess pid m form e) = w"
    by (auto simp: create_product_def update_product_def unauthorized_def Let_def
          split: option.splits)
qed


text \<open>
  Claim C7. In every reachable state every product has a price greater than zero.
  A successful \<open>create_product\<close> adds one product, a successful
  \<open>update_product\<close> leaves the product of the URL, each with the submitted price,
  which is greater than zero. A submission whose price is at most zero is never
  successful, in either view, and leaves the whole state as it is: the stored price
  with it.
\<close>

theorem price_positive:
  "(reachable w \<longrightarrow> (\<forall>p \<in> set (products w). float_lt (Fin 0) (price p)))
   \<and> (\<forall>w'. create_product w sess m form e =
               (Response (Redirect HomeEP) (Some ProductListed), w') \<longrightarrow>
          (\<exists>p. products w' = products w @ [p] \<and> pf_price form = Some (price p)
               \<and> float_lt (Fin 0) (price p)))
   \<and> (\<forall>w'. update_product w sess pid m form e =
               (Response (Redirect HomeEP) (Some ProductUpdated), w') \<longrightarrow>
          (\<exists>p'. get_product w' pid = Some p' \<and> pf_price form = Some (price p')
                \<and> float_lt (Fin 0) (price p')))
   \<and> (\<forall>x. pf_price form = Some x \<and> float_le x (Fin 0) \<longrightarrow>
          snd (create_product w sess m form e) = w
          \<and> snd (update_product w sess pid m form e) = w
          \<and> (\<forall>w'. create_product w sess m form e \<noteq>
                     (Response (Redirect HomeEP) (Some ProductListed), w'))
          \<and> (\<forall>w'. update_product w sess pid m form e \<noteq>
                     (Response (Redirect HomeEP) (Some ProductUpdated), w')))"
proof (intro conjI impI allI)
  assume "reachable w"
  from reachable_inv [OF this] show "\<forall>p \<in> set (products w). float_lt (Fin 0) (price p)"
    unfolding inv_def by blast
next
  fix w'
  assume "create_product w sess m form e = (Response (Redirect HomeEP) (Some ProductListed), w')"
  then show "\<exists>p. products w' = products w @ [p] \<and> pf_price form = Some (price p)
                 \<and> float_lt (Fin 0) (price p)"
    by (rule create_product_success)
next
  fix w'
  assume "update_product w sess pid m form e =
        (Response (Redirect HomeEP) (Some ProductUpdated), w')"
  then show "\<exists>p'. get_product w' pid = Some p' \<and> pf_price form = Some (price p')
                  \<and> float_lt (Fin 0) (price p')"
    by (rule update_product_success_price)
next
  fix x
  assume h: "pf_price form = Some x \<and> float_le x (Fin 0)"
  then show "snd (create_product w sess m form e) = w"
    using nonpositive_price_rejected(2) by blast
  from h show "snd (update_product w sess pid m form e) = w"
    using nonpositive_price_rejected(4) by blast
  fix w'
  from h show "create_product w sess m form e \<noteq>
                 (Response (Redirect HomeEP) (Some ProductListed), w')"
    using nonpositive_price_rejected(1) by blast
  from h show "update_product w sess pid m form e \<noteq>
                 (Response (Redirect HomeEP) (Some ProductUpdated), w')"
    using nonpositive_price_rejected(3) by blast
qed

lemma create_shop:
  "create_product shop (Some 1) POST listing_form (clock t) =
     (Response (Redirect HomeEP) (Some ProductListed), shop\<lparr>products := [lamp, lamp\<lparr>p_id := 2\<rparr>]\<rparr>)"
proof -
  have r: "role sam = ''seller''" "u_id sam = 1" by (simp_all add: sam_def)
  have f: "pf_image listing_form = None" "pf_price listing_form = Some (Fin 100)"
    "pf_name listing_form = ''lamp''" "pf_description listing_form = ''a lamp''"
    "pf_specifications listing_form = []" "pf_condition listing_form = hd condition_choices"
    by (simp_all add: listing_form_def)
  have n: "next_id (map p_id (products shop)) = 2"
    by (simp add: next_id_def shop_def lamp_def)
  show ?thesis
    by (simp add: create_product_def shop_seller r f n listing_valid
          product_form_validate_on_submit_def Let_def)
       (simp add: shop_def lamp_def)
qed

theorem price_positive_witness:
  "reachable shop_photo \<and> lamp_photo \<in> set (products shop_photo)
   \<and> float_lt (Fin 0) (price lamp_photo)
  
       \<and> (\<exists>p. products (shop\<lparr>products := [lamp, lamp\<lparr>p_id := 2\<rparr>]\<rparr>) = products shop @ [p]
          \<and> pf_price listing_form = Some (price p) \<and> float_lt (Fin 0) (price p))
  
       \<and> (\<exists>p'. get_product (shop\<lparr>products := [lamp\<lparr>price := Fin 90\<rparr>]\<rparr>) 1 = Some p'
          \<and> pf_price reprice_form = Some (price p') \<and> float_lt (Fin 0) (price p'))
   \<and> pf_price (listing_form\<lparr>pf_price := Some (Fin 0)\<rparr>) = Some (Fin 0)
   \<and> float_le (Fin 0) (Fin 0)
  
       \<and> snd (create_product shop (Some 1) POST (listing_form\<lparr>pf_price := Some (Fin 0)\<rparr>) (clock 5)) = shop
  
       \<and> snd (update_product shop (Some 1) 1 POST (listing_form\<lparr>pf_price := Some (Fin 0)\<rparr>) (clock 5)) = shop"
proof -
  let ?zero = "listing_form\<lparr>pf_price := Some (Fin 0)\<rparr>"
  have m: "lamp_photo \<in> set (products shop_photo)"
    by (simp add: shop_photo_def)
  have z: "pf_price ?zero = Some (Fin 0)" "float_le (Fin 0) (Fin 0)"
    by simp_all
  note a = price_positive [of shop_photo "Some 1" POST listing_form "clock 5" 1]
  note b = price_positive [of shop "Some 1" POST listing_form "clock 5" 1]
  note c = price_positive [of shop "Some 1" POST reprice_form "clock 5" 1]
  note d = price_positive [of shop "Some 1" POST ?zero "clock 5" 1]
  from a shop_photo_reachable m have "float_lt (Fin 0) (price lamp_photo)" by blast
  moreover from b create_shop [of 5]
  have "\<exists>p. products (shop\<lparr>products := [lamp, lamp\<lparr>p_id := 2\<rparr>]\<rparr>) = products shop @ [p]
          \<and> pf_price listing_form = Some (price p) \<and> float_lt (Fin 0) (price p)"
    by blast
  moreover from c reprice_shop [of 5]
  have "\<exists>p'. get_product (shop\<lparr>products := [lamp\<lparr>price := Fin 90\<rparr>]\<rparr>) 1 = Some p'
          \<and> pf_price reprice_form = Some (price p') \<and> float_lt (Fin 0) (price p')"
    by blast
  moreover from d z
  have "snd (create_product shop (Some 1) POST ?zero (clock 5)) = shop"
    and "snd (update_product shop (Some 1) 1 POST ?zero (clock 5)) = shop"
    by blast+
  ultimately show ?thesis using shop_photo_reachable m z by blast
qed

section \<open>Confirming the same order twice\<close>

lemma confirm_order_pre_success:
  assumes "current_user w sess = Some cu" and "get_product w pid = Some product"
    and "get_shipping_address w aid = Some addr"
    and "may_not_buy w cu product = Some False" and "user_id addr = u_id cu"
    and "order_form_validate_on_submit m form"
  shows "confirm_order w sess pid aid m form e =
           (Response (Redirect MyOrdersEP) (Some OrderCreated),
            w\<lparr>orders := orders w @
                  [\<lparr>o_id = next_id (map o_id (orders w)), product_id = pid,
                    buyer_id = u_id cu, order_date = now e, status = ''pending'',
                    shipping_method = of_shipping_method form,
                    shipping_address_id = aid, total_price = price product\<rparr>]\<rparr>)"
proof -
  from get_product_Some [OF assms(2)] get_shipping_address_Some [OF assms(3)]
  have "p_id product = pid" "a_id addr = aid" by simp_all
  with assms show ?thesis by (simp add: confirm_order_def Let_def)
qed

lemma orders_kept_handle: "set (orders w) \<subseteq> set (orders (snd (handle w sess r e)))"
proof (cases r)
  case (ReqConfirmOrder pid aid m f)
  from confirm_order_effect [OF refl, of w sess pid aid m f e]
  have "orders (snd (confirm_order w sess pid aid m f e)) = orders w
        \<or> (\<exists>x. orders (snd (confirm_order w sess pid aid m f e)) = orders w @ [x])"
    by blast
  then show ?thesis using ReqConfirmOrder by (auto simp: split_beta)
next
  case (ReqRegister m f)
  with register_effect [OF refl, of w sess m f] show ?thesis by (simp add: split_beta)
next
  case (ReqCreateProduct m f)
  with create_product_effect [OF refl, of w sess m f e] show ?thesis by (simp add: split_beta)
next
  case (ReqUpdateProduct pid m f)
  with update_product_effect [OF refl, of w sess pid m f e] show ?thesis
    by (simp add: split_beta)
next
  case (ReqDeleteProduct pid)
  with delete_product_effect [OF refl, of w sess pid] show ?thesis by (simp add: split_beta)
next
  case (ReqShippingAddress pid m f)
  with shipping_address_view_effect [OF refl, of w sess pid m f] show ?thesis
    by (simp add: split_beta)
qed (simp_all add: read_only_views split_beta)

lemma orders_kept_run: "set (orders w) \<subseteq> set (orders (run w reqs))"
proof (induction reqs arbitrary: w)
  case Nil
  show ?case by simp
next
  case (Cons q reqs)
  obtain sess r e where q: "q = (sess, r, e)" by (cases q)
  from orders_kept_handle [of w sess r e] Cons.IH [of "snd (handle w sess r e)"]
  show ?case unfolding q by auto
qed


text \<open>
  Claim C5, as amended. Let the preconditions of \<open>confirm_order\<close> hold in a state:
  a logged-in user who passes the check on buyers, an existing product, an address of
  the user, a valid form. Then the request creates an order \<open>x1\<close>, and its
  \<open>total_price\<close> is the product's price in that state. The same request sent again
  straight away succeeds too and adds a second order: nothing recognises the
  repetition; the two orders have different keys, the same product, buyer, address and
  shipping method, and the same \<open>total_price\<close>. The same request sent again later,
  after any requests in between, in a state where its preconditions hold, also adds a
  second order with another key and the same product, buyer, address and shipping
  method; its \<open>total_price\<close> is the product's price at that time, so the two snapshots
  are equal exactly when the product has the same price at both calls.
\<close>

theorem confirm_order_twice:
  assumes "current_user w sess = Some cu" and "get_product w pid = Some product"
    and "get_shipping_address w aid = Some addr"
    and "may_not_buy w cu product = Some False" and "user_id addr = u_id cu"
    and "order_form_validate_on_submit m form"
    and "w1 = snd (confirm_order w sess pid aid m form e1)"
  shows "\<exists>x1.
           confirm_order w sess pid aid m form e1 =
             (Response (Redirect MyOrdersEP) (Some OrderCreated), w1)
           \<and> orders w1 = orders w @ [x1] \<and> total_price x1 = price product
           \<and> (\<exists>x2. confirm_order w1 sess pid aid m form e2 =
                       (Response (Redirect MyOrdersEP) (Some OrderCreated),
                        w1\<lparr>orders := orders w @ [x1, x2]\<rparr>)
                  \<and> o_id x1 \<noteq> o_id x2 \<and> total_price x1 = total_price x2
                  \<and> product_id x1 = product_id x2 \<and> buyer_id x1 = buyer_id x2
                  \<and> shipping_address_id x1 = shipping_address_id x2
                  \<and> shipping_method x1 = shipping_method x2)
           \<and> (\<forall>reqs w2 cu2 product2 addr2.
                  w2 = run w1 reqs
                  \<and> current_user w2 sess = Some cu2 \<and> get_product w2 pid = Some product2
                  \<and> get_shipping_address w2 aid = Some addr2
                  \<and> may_not_buy w2 cu2 product2 = Some False \<and> user_id addr2 = u_id cu2
                  \<longrightarrow>
                  (\<exists>x2. confirm_order w2 sess pid aid m form e2 =
                          (Response (Redirect MyOrdersEP) (Some OrderCreated),
                           w2\<lparr>orders := orders w2 @ [x2]\<rparr>)
                     \<and> x1 \<in> set (orders w2)
                     \<and> o_id x1 \<noteq> o_id x2
                     \<and> product_id x1 = product_id x2 \<and> buyer_id x1 = buyer_id x2
                     \<and> shipping_address_id x1 = shipping_address_id x2
                     \<and> shipping_method x1 = shipping_method x2
                     \<and> total_price x2 = price product2
                     \<and> (total_price x1 = total_price x2) = (price product = price product2)))"
proof -
  let ?x1 = "\<lparr>o_id = next_id (map o_id (orders w)), product_id = pid,
               buyer_id = u_id cu, order_date = now e1, status = ''pending'',
               shipping_method = of_shipping_method form,
               shipping_address_id = aid, total_price = price product\<rparr>"
  have first: "confirm_order w sess pid aid m form e1 =
      (Response (Redirect MyOrdersEP) (Some OrderCreated), w\<lparr>orders := orders w @ [?x1]\<rparr>)"
    by (rule confirm_order_pre_success [OF assms(1-6)])
  then have w1: "w1 = w\<lparr>orders := orders w @ [?x1]\<rparr>" using assms(7) by simp
  have o1: "orders w1 = orders w @ [?x1]" by (simp add: w1)
  have tables: "users w1 = users w" "products w1 = products w"
    "shipping_addresses w1 = shipping_addresses w"
    by (simp_all add: w1)
  have same: "current_user w1 sess = Some cu" "get_product w1 pid = Some product"
    "get_shipping_address w1 aid = Some addr" "may_not_buy w1 cu product = Some False"
    using assms(1-4)
    by (simp_all add: current_user_cong [OF tables(1)] get_product_cong [OF tables(2)]
          get_shipping_address_cong [OF tables(3)] may_not_buy_cong [OF tables(1)])
  let ?x2 = "\<lparr>o_id = next_id (map o_id (orders w1)), product_id = pid,
               buyer_id = u_id cu, order_date = now e2, status = ''pending'',
               shipping_method = of_shipping_method form,
               shipping_address_id = aid, total_price = price product\<rparr>"
  from confirm_order_pre_success [OF same assms(5,6), of e2]
  have second: "confirm_order w1 sess pid aid m form e2 =
      (Response (Redirect MyOrdersEP) (Some OrderCreated), w1\<lparr>orders := orders w @ [?x1, ?x2]\<rparr>)"
    by (simp add: o1)
  have "next_id (map o_id (orders w1)) \<notin> set (map o_id (orders w1))"
    by (rule next_id_fresh)
  then have fresh: "o_id ?x1 \<noteq> o_id ?x2" by (auto simp: o1)
  have direct: "\<exists>x2. confirm_order w1 sess pid aid m form e2 =
                       (Response (Redirect MyOrdersEP) (Some OrderCreated),
                        w1\<lparr>orders := orders w @ [?x1, x2]\<rparr>)
                  \<and> o_id ?x1 \<noteq> o_id x2 \<and> total_price ?x1 = total_price x2
                  \<and> product_id ?x1 = product_id x2 \<and> buyer_id ?x1 = buyer_id x2
                  \<and> shipping_address_id ?x1 = shipping_address_id x2
                  \<and> shipping_method ?x1 = shipping_method x2"
    using second fresh by (intro exI [of _ ?x2]) simp
  have later: "\<forall>reqs w2 cu2 product2 addr2.
                  w2 = run w1 reqs
                  \<and> current_user w2 sess = Some cu2 \<and> get_product w2 pid = Some product2
                  \<and> get_shipping_address w2 aid = Some addr2
                  \<and> may_not_buy w2 cu2 product2 = Some False \<and> user_id addr2 = u_id cu2
                  \<longrightarrow>
                  (\<exists>x2. confirm_order w2 sess pid aid m form e2 =
                          (Response (Redirect MyOrdersEP) (Some OrderCreated),
                           w2\<lparr>orders := orders w2 @ [x2]\<rparr>)
                     \<and> ?x1 \<in> set (orders w2)
                     \<and> o_id ?x1 \<noteq> o_id x2
                     \<and> product_id ?x1 = product_id x2 \<and> buyer_id ?x1 = buyer_id x2
                     \<and> shipping_address_id ?x1 = shipping_address_id x2
                     \<and> shipping_method ?x1 = shipping_method x2
                     \<and> total_price x2 = price product2
                     \<and> (total_price ?x1 = total_price x2) = (price product = price product2))"
  proof (intro allI impI)
    fix reqs w2 cu2 product2 addr2
    assume h: "w2 = run w1 reqs
                  \<and> current_user w2 sess = Some cu2 \<and> get_product w2 pid = Some product2
                  \<and> get_shipping_address w2 aid = Some addr2
                  \<and> may_not_buy w2 cu2 product2 = Some False \<and> user_id addr2 = u_id cu2"
    then have pre2: "current_user w2 sess = Some cu2" "get_product w2 pid = Some product2"
      "get_shipping_address w2 aid = Some addr2" "may_not_buy w2 cu2 product2 = Some False"
      "user_id addr2 = u_id cu2" and w2: "w2 = run w1 reqs"
      by blast+
    let ?y = "\<lparr>o_id = next_id (map o_id (orders w2)), product_id = pid,
               buyer_id = u_id cu2, order_date = now e2, status = ''pending'',
               shipping_method = of_shipping_method form,
               shipping_address_id = aid, total_price = price product2\<rparr>"
    have call: "confirm_order w2 sess pid aid m form e2 =
        (Response (Redirect MyOrdersEP) (Some OrderCreated), w2\<lparr>orders := orders w2 @ [?y]\<rparr>)"
      by (rule confirm_order_pre_success [OF pre2 assms(6)])
    from orders_kept_run [of w1 reqs] o1 have kept: "?x1 \<in> set (orders w2)"
      unfolding w2 by auto
    have "next_id (map o_id (orders w2)) \<notin> set (map o_id (orders w2))"
      by (rule next_id_fresh)
    with kept have ids: "o_id ?x1 \<noteq> o_id ?y" by force
    from current_user_Some [OF assms(1)] current_user_Some [OF pre2(1)]
    have buyer: "u_id cu = u_id cu2" by simp
    show "\<exists>x2. confirm_order w2 sess pid aid m form e2 =
                          (Response (Redirect MyOrdersEP) (Some OrderCreated),
                           w2\<lparr>orders := orders w2 @ [x2]\<rparr>)
                     \<and> ?x1 \<in> set (orders w2)
                     \<and> o_id ?x1 \<noteq> o_id x2
                     \<and> product_id ?x1 = product_id x2 \<and> buyer_id ?x1 = buyer_id x2
                     \<and> shipping_address_id ?x1 = shipping_address_id x2
                     \<and> shipping_method ?x1 = shipping_method x2
                     \<and> total_price x2 = price product2
                     \<and> (total_price ?x1 = total_price x2) = (price product = price product2)"
      using call kept ids buyer by (intro exI [of _ ?y]) simp
  qed
  from first w1 have r: "confirm_order w sess pid aid m form e1 =
             (Response (Redirect MyOrdersEP) (Some OrderCreated), w1)"
    by simp
  have t: "total_price ?x1 = price product" by simp
  show ?thesis
    by (rule exI [of _ ?x1], intro conjI) (rule r o1 t direct later)+
qed


lemma shop_buyer: "current_user shop (Some 2) = Some bob"
  by (simp add: current_user_def load_user_def get_user_def shop_def sam_def bob_def)

lemma shop_address: "get_shipping_address shop 1 = Some bob_home"
  by (simp add: get_shipping_address_def shop_def bob_home_def)

lemma shop_may_buy: "may_not_buy shop bob lamp = Some False"
  by (simp add: may_not_buy_def get_user_def shop_def sam_def bob_def lamp_def)

lemma bob_home_owner: "user_id bob_home = u_id bob"
  by (simp add: bob_home_def bob_def)

lemma delivery_valid: "order_form_validate_on_submit POST delivery_form"
  by (simp add: order_form_validate_on_submit_def validate_order_form_def delivery_form_def
        select_valid_def shipping_method_choices_def data_required_def is_space_def
        two_byte_space_def three_byte_space_def)

lemma reprice_after_order:
  "update_product (shop\<lparr>orders := [lamp_order 1 5]\<rparr>) (Some 1) 1 POST reprice_form (clock t) =
     (Response (Redirect HomeEP) (Some ProductUpdated), shop_repriced)"
proof -
  let ?w = "shop\<lparr>orders := [lamp_order 1 5]\<rparr>"
  have t: "users ?w = users shop" "products ?w = products shop" by simp_all
  have cu: "current_user ?w (Some 1) = Some sam"
    by (simp add: current_user_cong [OF t(1)] shop_seller)
  have p: "get_product ?w 1 = Some lamp"
    by (simp add: get_product_cong [OF t(2)] shop_product)
  have s: "get_user ?w (seller_id lamp) = Some sam"
    using shop_owner by (simp add: get_user_def)
  have f: "pf_image reprice_form = None" "pf_price reprice_form = Some (Fin 90)"
    "pf_name reprice_form = ''lamp''" "pf_description reprice_form = ''a lamp''"
    "pf_specifications reprice_form = []" "pf_condition reprice_form = hd condition_choices"
    by (simp_all add: reprice_form_def listing_form_def)
  show ?thesis
    by (simp add: update_product_def cu p s f reprice_valid
          product_form_validate_on_submit_def Let_def)
       (simp add: shop_repriced_def shop_def lamp_def)
qed

lemma shop_repriced_buyer: "current_user shop_repriced (Some 2) = Some bob"
  by (simp add: current_user_def load_user_def get_user_def shop_repriced_def shop_def
        sam_def bob_def)

lemma shop_repriced_product: "get_product shop_repriced 1 = Some (lamp\<lparr>price := Fin 90\<rparr>)"
  by (simp add: get_product_def shop_repriced_def lamp_def)

lemma shop_repriced_address: "get_shipping_address shop_repriced 1 = Some bob_home"
  by (simp add: get_shipping_address_def shop_repriced_def shop_def bob_home_def)

lemma shop_repriced_may_buy: "may_not_buy shop_repriced bob (lamp\<lparr>price := Fin 90\<rparr>) = Some False"
  by (simp add: may_not_buy_def get_user_def shop_repriced_def shop_def sam_def bob_def lamp_def)

lemma confirm_repriced:
  "confirm_order shop_repriced (Some 2) 1 1 POST delivery_form (clock t) =
     (Response (Redirect MyOrdersEP) (Some OrderCreated),
      shop_repriced\<lparr>orders := [lamp_order 1 5, (lamp_order 2 t)\<lparr>total_price := Fin 90\<rparr>]\<rparr>)"
proof -
  have n: "next_id (map o_id (orders shop_repriced)) = 2"
    by (simp add: next_id_def shop_repriced_def lamp_order_def)
  have b: "u_id bob = 2" by (simp add: bob_def)
  have m: "of_shipping_method delivery_form = shipping_method_choices ! 1"
    by (simp add: delivery_form_def)
  have o: "orders shop_repriced = [lamp_order 1 5]" by (simp add: shop_repriced_def)
  show ?thesis
    unfolding confirm_order_pre_success [OF shop_repriced_buyer shop_repriced_product
        shop_repriced_address shop_repriced_may_buy bob_home_owner delivery_valid]
    by (simp add: n b m o lamp_order_def clock_def next_id_def)
qed

theorem confirm_order_twice_witness:
  "(\<exists>x2. confirm_order (shop\<lparr>orders := [lamp_order 1 5]\<rparr>) (Some 2) 1 1 POST delivery_form
             (clock 9) =
            (Response (Redirect MyOrdersEP) (Some OrderCreated),
             shop\<lparr>orders := [lamp_order 1 5, x2]\<rparr>)
         \<and> o_id (lamp_order 1 5) \<noteq> o_id x2
         \<and> total_price (lamp_order 1 5) = total_price x2)
   \<and> (\<exists>x2. confirm_order shop_repriced (Some 2) 1 1 POST delivery_form (clock 9) =
            (Response (Redirect MyOrdersEP) (Some OrderCreated),
             shop_repriced\<lparr>orders := orders shop_repriced @ [x2]\<rparr>)
         \<and> o_id (lamp_order 1 5) \<noteq> o_id x2
         \<and> total_price x2 = Fin 90
         \<and> total_price (lamp_order 1 5) \<noteq> total_price x2)"
proof -
  have w1: "shop\<lparr>orders := [lamp_order 1 5]\<rparr> =
      snd (confirm_order shop (Some 2) 1 1 POST delivery_form (clock 5))"
    by (simp add: confirm_shop)
  have r: "shop_repriced =
      run (shop\<lparr>orders := [lamp_order 1 5]\<rparr>)
        [(Some 1, ReqUpdateProduct 1 POST reprice_form, clock 6)]"
    by (simp add: reprice_after_order)
  have hyp: "shop_repriced = run (shop\<lparr>orders := [lamp_order 1 5]\<rparr>) [(Some 1, ReqUpdateProduct 1 POST reprice_form, clock 6)]
      \<and> current_user shop_repriced (Some 2) = Some bob
      \<and> get_product shop_repriced 1 = Some (lamp\<lparr>price := Fin 90\<rparr>)
      \<and> get_shipping_address shop_repriced 1 = Some bob_home
      \<and> may_not_buy shop_repriced bob (lamp\<lparr>price := Fin 90\<rparr>) = Some False
      \<and> user_id bob_home = u_id bob"
    by (intro conjI)
       (rule r shop_repriced_buyer shop_repriced_product shop_repriced_address
          shop_repriced_may_buy bob_home_owner)+
  note t = confirm_order_twice [OF shop_buyer shop_product shop_address shop_may_buy
      bob_home_owner delivery_valid w1, of "clock 9"]
  from t obtain x1 x2 where
    a: "orders (shop\<lparr>orders := [lamp_order 1 5]\<rparr>) = orders shop @ [x1]"
    and d1: "confirm_order (shop\<lparr>orders := [lamp_order 1 5]\<rparr>) (Some 2) 1 1 POST delivery_form (clock 9) =
          (Response (Redirect MyOrdersEP) (Some OrderCreated), (shop\<lparr>orders := [lamp_order 1 5]\<rparr>)\<lparr>orders := orders shop @ [x1, x2]\<rparr>)"
    and d2: "o_id x1 \<noteq> o_id x2"
    and d3: "total_price x1 = total_price x2"
    and d4: "product_id x1 = product_id x2"
    and d5: "buyer_id x1 = buyer_id x2"
    and d6: "shipping_address_id x1 = shipping_address_id x2"
    and d7: "shipping_method x1 = shipping_method x2"
    and c: "(\<forall>reqs w2 cu2 product2 addr2. w2 = run (shop\<lparr>orders := [lamp_order 1 5]\<rparr>) reqs
        \<and> current_user w2 (Some 2) = Some cu2
        \<and> get_product w2 1 = Some product2
        \<and> get_shipping_address w2 1 = Some addr2
        \<and> may_not_buy w2 cu2 product2 = Some False
        \<and> user_id addr2 = u_id cu2 \<longrightarrow> (\<exists>x2. confirm_order w2 (Some 2) 1 1 POST delivery_form (clock 9) =
              (Response (Redirect MyOrdersEP) (Some OrderCreated), w2\<lparr>orders := orders w2 @ [x2]\<rparr>)
        \<and> x1 \<in> set (orders w2)
        \<and> o_id x1 \<noteq> o_id x2
        \<and> product_id x1 = product_id x2
        \<and> buyer_id x1 = buyer_id x2
        \<and> shipping_address_id x1 = shipping_address_id x2
        \<and> shipping_method x1 = shipping_method x2
        \<and> total_price x2 = price product2
        \<and> (total_price x1 = total_price x2) = (price lamp = price product2)))"
    by (elim exE conjE) (rule that)
  from c [rule_format, OF hyp] obtain y where
    q1: "confirm_order shop_repriced (Some 2) 1 1 POST delivery_form (clock 9) =
          (Response (Redirect MyOrdersEP) (Some OrderCreated), shop_repriced\<lparr>orders := orders shop_repriced @ [y]\<rparr>)"
    and q2: "x1 \<in> set (orders shop_repriced)"
    and q3: "o_id x1 \<noteq> o_id y"
    and q4: "product_id x1 = product_id y"
    and q5: "buyer_id x1 = buyer_id y"
    and q6: "shipping_address_id x1 = shipping_address_id y"
    and q7: "shipping_method x1 = shipping_method y"
    and q8: "total_price y = price (lamp\<lparr>price := Fin 90\<rparr>)"
    and q9: "(total_price x1 = total_price y) = (price lamp = price (lamp\<lparr>price := Fin 90\<rparr>))"
    by (elim exE conjE) (rule that)
  from a have x1: "x1 = lamp_order 1 5" by (simp add: shop_def)
  have e: "orders shop = []" by (simp add: shop_def)
  have p: "price lamp = Fin 100" "price (lamp\<lparr>price := Fin 90\<rparr>) = Fin 90"
    by (simp_all add: lamp_def)
  have first: "\<exists>x2. confirm_order (shop\<lparr>orders := [lamp_order 1 5]\<rparr>) (Some 2) 1 1 POST
             delivery_form (clock 9) =
            (Response (Redirect MyOrdersEP) (Some OrderCreated),
             shop\<lparr>orders := [lamp_order 1 5, x2]\<rparr>)
         \<and> o_id (lamp_order 1 5) \<noteq> o_id x2
         \<and> total_price (lamp_order 1 5) = total_price x2"
    using d1 d2 d3 unfolding x1 e by (intro exI [of _ x2]) simp
  have second: "\<exists>x2. confirm_order shop_repriced (Some 2) 1 1 POST delivery_form (clock 9) =
            (Response (Redirect MyOrdersEP) (Some OrderCreated),
             shop_repriced\<lparr>orders := orders shop_repriced @ [x2]\<rparr>)
         \<and> o_id (lamp_order 1 5) \<noteq> o_id x2
         \<and> total_price x2 = Fin 90
         \<and> total_price (lamp_order 1 5) \<noteq> total_price x2"
    using q1 q3 q8 q9 unfolding x1 p by (intro exI [of _ y]) simp
  from first second show ?thesis by (rule conjI)
qed

text \<open>
  Claim C5, as it is stated, fails. The buyer confirms at time 5, the seller lowers the
  price from 100 to 90, and the buyer sends the same confirmation again at time 9. Both
  confirmations satisfy the preconditions and succeed, with the same buyer, product,
  address and shipping method, and the two orders hold the snapshots 100 and 90:
  \<open>confirm_order\<close> copies the price the product has when it runs (line 313).
\<close>

theorem confirm_order_twice_counterexample:
  "confirm_order shop (Some 2) 1 1 POST delivery_form (clock 5) =
     (Response (Redirect MyOrdersEP) (Some OrderCreated), shop\<lparr>orders := [lamp_order 1 5]\<rparr>)
  
       \<and> update_product (shop\<lparr>orders := [lamp_order 1 5]\<rparr>) (Some 1) 1 POST reprice_form (clock 6) =
       (Response (Redirect HomeEP) (Some ProductUpdated), shop_repriced)
   \<and> confirm_order shop_repriced (Some 2) 1 1 POST delivery_form (clock 9) =
       (Response (Redirect MyOrdersEP) (Some OrderCreated),
        shop_repriced\<lparr>orders := [lamp_order 1 5, (lamp_order 2 9)\<lparr>total_price := Fin 90\<rparr>]\<rparr>)
   \<and> total_price (lamp_order 1 5) = Fin 100
   \<and> total_price ((lamp_order 2 9)\<lparr>total_price := Fin 90\<rparr>) = Fin 90
  
       \<and> total_price (lamp_order 1 5) \<noteq> total_price ((lamp_order 2 9)\<lparr>total_price := Fin 90\<rparr>)"
  using confirm_shop [of 5] reprice_after_order [of 6] confirm_repriced [of 9]
  by (simp add: lamp_order_def)

end
